theory Spec2Isabelle
  imports Complex_Main
begin

section \<open>Strings\<close>

text \<open>
  JavaScript strings are modelled as \<^typ>\<open>string\<close>. The model covers strings of ASCII
  characters (what HTTP headers and the validated shortcodes carry); on them
  \<^verbatim>\<open>toLowerCase\<close> changes exactly the letters \<^verbatim>\<open>A-Z\<close>.
\<close>

definition upper_letters :: string where
  "upper_letters = ''ABCDEFGHIJKLMNOPQRSTUVWXYZ''"

definition lower_letters :: string where
  "lower_letters = ''abcdefghijklmnopqrstuvwxyz''"

definition digit_chars :: string where
  "digit_chars = ''0123456789''"

definition lower_char :: "char \<Rightarrow> char" where
  "lower_char c = (case map_of (zip upper_letters lower_letters) c of
                     Some d \<Rightarrow> d | None \<Rightarrow> c)"

definition toLowerCase :: "string \<Rightarrow> string" where
  "toLowerCase s = map lower_char s"

text \<open>\<^verbatim>\<open>s.startsWith(p)\<close> and \<^verbatim>\<open>s.includes(p)\<close>.\<close>

fun startsWith :: "string \<Rightarrow> string \<Rightarrow> bool" where
  "startsWith s [] = True"
| "startsWith [] (p # ps) = False"
| "startsWith (c # cs) (p # ps) = (c = p \<and> startsWith cs ps)"

fun str_includes :: "string \<Rightarrow> string \<Rightarrow> bool" where
  "str_includes [] p = (p = [])"
| "str_includes (c # cs) p = (startsWith (c # cs) p \<or> str_includes cs p)"

text \<open>\<^verbatim>\<open>s.trim()\<close>, for the white space of ASCII.\<close>

definition is_space :: "char \<Rightarrow> bool" where
  "is_space c \<longleftrightarrow> c \<in> set [CHR 0x20, CHR 0x09, CHR 0x0A, CHR 0x0B, CHR 0x0C, CHR 0x0D]"

definition js_trim :: "string \<Rightarrow> string" where
  "js_trim v = rev (dropWhile is_space (rev (dropWhile is_space v)))"

section \<open>User-agent classifier\<close>

text \<open>
  \<^verbatim>\<open>UrlService.parseUserAgent(userAgent = '')\<close>. The two regular expressions are
  alternations of literal words without anchors, so \<^verbatim>\<open>test\<close> is a substring search
  for any of the words.
\<close>

record device =
  dev_type :: string
  browser :: string
  os :: string
  isMobile :: bool

definition mobile_regex :: "string \<Rightarrow> bool" where
  "mobile_regex ua \<longleftrightarrow>
     str_includes ua ''mobile'' \<or> str_includes ua ''android'' \<or> str_includes ua ''iphone'' \<or>
     str_includes ua ''ipod'' \<or> str_includes ua ''blackberry'' \<or> str_includes ua ''iemobile'' \<or>
     str_includes ua ''opera mini''"

definition tablet_regex :: "string \<Rightarrow> bool" where
  "tablet_regex ua \<longleftrightarrow> str_includes ua ''tablet'' \<or> str_includes ua ''ipad''"

definition detect_type :: "string \<Rightarrow> string" where
  "detect_type ua =
     (if mobile_regex ua then ''mobile''
      else if tablet_regex ua then ''tablet''
      else ''desktop'')"

definition detect_browser :: "string \<Rightarrow> string" where
  "detect_browser ua =
     (if str_includes ua ''chrome'' then ''Chrome''
      else if str_includes ua ''firefox'' then ''Firefox''
      else if str_includes ua ''safari'' then ''Safari''
      else if str_includes ua ''edge'' then ''Edge''
      else if str_includes ua ''opera'' then ''Opera''
      else ''Unknown'')"

definition detect_os :: "string \<Rightarrow> string" where
  "detect_os ua =
     (if str_includes ua ''windows'' then ''Windows''
      else if str_includes ua ''mac'' then ''macOS''
      else if str_includes ua ''linux'' then ''Linux''
      else if str_includes ua ''android'' then ''Android''
      else if str_includes ua ''ios'' \<or> str_includes ua ''iphone'' \<or> str_includes ua ''ipad'' then ''iOS''
      else ''Unknown'')"

definition parseUserAgent :: "string option \<Rightarrow> device" where
  "parseUserAgent hdr =
     (let ua = toLowerCase (case hdr of None \<Rightarrow> [] | Some v \<Rightarrow> v);
          t = detect_type ua
      in \<lparr>dev_type = t, browser = detect_browser ua, os = detect_os ua,
          isMobile = (t = ''mobile'')\<rparr>)"

text \<open>
  The classifier as the specification words it: an ordered list of (tokens, label)
  entries, the first entry with a token occurring in the lower-cased string wins.
\<close>

fun first_match :: "(string list \<times> string) list \<Rightarrow> string \<Rightarrow> string \<Rightarrow> string" where
  "first_match [] dflt l = dflt"
| "first_match ((toks, label) # rest) dflt l =
     (if list_ex (str_includes l) toks then label else first_match rest dflt l)"

definition spec_device_table :: "(string list \<times> string) list" where
  "spec_device_table =
     [([''mobile'', ''android'', ''iphone'', ''ipod'', ''blackberry'', ''iemobile'',
        ''opera mini''], ''mobile''),
      ([''tablet'', ''ipad''], ''tablet'')]"

definition spec_browser_table :: "(string list \<times> string) list" where
  "spec_browser_table =
     [([''chrome''], ''Chrome''), ([''firefox''], ''Firefox''), ([''safari''], ''Safari''),
      ([''edge''], ''Edge''), ([''opera''], ''Opera'')]"

definition spec_os_table :: "(string list \<times> string) list" where
  "spec_os_table =
     [([''windows''], ''Windows''), ([''mac''], ''macOS''), ([''linux''], ''Linux''),
      ([''android''], ''Android''), ([''ios'', ''iphone'', ''ipad''], ''iOS'')]"

definition spec_classify :: "string \<Rightarrow> device" where
  "spec_classify l =
     \<lparr>dev_type = first_match spec_device_table ''desktop'' l,
      browser = first_match spec_browser_table ''Unknown'' l,
      os = first_match spec_os_table ''Unknown'' l,
      isMobile = (first_match spec_device_table ''desktop'' l = ''mobile'')\<rparr>"

section \<open>Documents and the store\<close>

text \<open>
  A \<^verbatim>\<open>Date\<close> is its number of milliseconds since the epoch. The two collections are
  lists of documents in insertion order. The \<^verbatim>\<open>urls\<close> collection has a unique index on
  \<^verbatim>\<open>shortcode\<close>, so the shortcode identifies a document (it stands for \<^verbatim>\<open>_id\<close>);
  the schema option \<^verbatim>\<open>timestamps: true\<close> makes every write stamp \<^verbatim>\<open>updatedAt\<close>.
  A JavaScript number is the rational it denotes; where the code computes with numbers
  that are not integers, the rounding of the arithmetic is a parameter of the model.
\<close>

type_synonym time = int

record url =
  shortcode :: string
  originalUrl :: string
  createdAt :: time
  updatedAt :: time
  expiresAt :: time
  isActive :: bool
  totalClicks :: int
  lastClickAt :: "time option"
  tags :: "string list"
  description :: "string option"

record location =
  country :: "string option"
  region :: "string option"
  city :: "string option"
  timezone :: "string option"
  coordinates :: "(rat option \<times> rat option) option"

record clickData =
  click_shortcode :: string
  ip :: "string option"
  userAgent :: string
  referer :: string
  location :: location
  device :: device

record click = clickData +
  timestamp :: time

record store =
  urls :: "url list"
  clicks :: "click list"

definition unique_index :: "store \<Rightarrow> bool" where
  "unique_index s \<longleftrightarrow> distinct (map shortcode (urls s))"

text \<open>What Mongoose and the MongoDB driver throw, with the text of \<^verbatim>\<open>error.message\<close>.\<close>

datatype store_error =
    ValidationError string "(string \<times> string) list"
  | DuplicateKey string
  | DocumentNotFound string

fun join_messages :: "(string \<times> string) list \<Rightarrow> string" where
  "join_messages [] = []"
| "join_messages [(p, m)] = p @ '': '' @ m"
| "join_messages ((p, m) # rest) = p @ '': '' @ m @ '', '' @ join_messages rest"

fun message :: "store_error \<Rightarrow> string" where
  "message (ValidationError model errs) =
     model @ '' validation failed: '' @ join_messages errs"
| "message (DuplicateKey sc) =
     ''E11000 duplicate key error collection: url_shortener.urls index: shortcode_1 dup key: { shortcode: '' @ [CHR 0x22] @ sc @ [CHR 0x22] @ '' }''"
| "message (DocumentNotFound sc) =
     ''No document found for query '' @ sc @ '' on model Url''"

definition required_message :: "string \<Rightarrow> string" where
  "required_message path = ''Path `'' @ path @ ''` is required.''"

definition minlength_message :: "string \<Rightarrow> string \<Rightarrow> string \<Rightarrow> string" where
  "minlength_message path v n =
     ''Path `'' @ path @ ''` (`'' @ v @ ''`) is shorter than the minimum allowed length ('' @ n @ '').''"

definition maxlength_message :: "string \<Rightarrow> string \<Rightarrow> string \<Rightarrow> string" where
  "maxlength_message path v n =
     ''Path `'' @ path @ ''` (`'' @ v @ ''`) is longer than the maximum allowed length ('' @ n @ '').''"

definition cast_date_message :: "string \<Rightarrow> string" where
  "cast_date_message path =
     ''Cast to date failed for value '' @ [CHR 0x22] @ ''Invalid Date'' @ [CHR 0x22] @
     '' (type Date) at path '' @ [CHR 0x22] @ path @ [CHR 0x22]"

text \<open>A value is truthy when it is present and not the empty string; \<^verbatim>\<open>x || d\<close>.\<close>

definition truthy :: "string option \<Rightarrow> bool" where
  "truthy x = (case x of None \<Rightarrow> False | Some v \<Rightarrow> v \<noteq> [])"

definition or_default :: "string option \<Rightarrow> string \<Rightarrow> string" where
  "or_default x d = (case x of None \<Rightarrow> d | Some v \<Rightarrow> if v = [] then d else v)"

subsection \<open>Queries and updates of the \<^verbatim>\<open>urls\<close> collection\<close>

text \<open>The virtual \<^verbatim>\<open>isExpired\<close>: \<^verbatim>\<open>new Date() > this.expiresAt\<close>.\<close>

definition isExpired :: "time \<Rightarrow> url \<Rightarrow> bool" where
  "isExpired now u \<longleftrightarrow> now > expiresAt u"

text \<open>
  \<^verbatim>\<open>Url.findOne({ shortcode, isActive: true })\<close> and \<^verbatim>\<open>Url.findOne({ shortcode })\<close>
  (also \<^verbatim>\<open>exists({ shortcode })\<close>). The path \<^verbatim>\<open>shortcode\<close> of \<^verbatim>\<open>urlSchema\<close> has
  \<^verbatim>\<open>trim: true\<close>, and Mongoose casts the filter of a query through the setters of the
  schema: the query looks for the trimmed string.
\<close>

definition findOne_active :: "store \<Rightarrow> string \<Rightarrow> url option" where
  "findOne_active s sc = find (\<lambda>d. shortcode d = js_trim sc \<and> isActive d) (urls s)"

definition findOne :: "store \<Rightarrow> string \<Rightarrow> url option" where
  "findOne s sc = find (\<lambda>d. shortcode d = js_trim sc) (urls s)"

text \<open>
  The document with exactly the given key: what the unique index compares, and what an
  operation addressed by \<^verbatim>\<open>_id\<close> finds.
\<close>

definition find_by_key :: "store \<Rightarrow> string \<Rightarrow> url option" where
  "find_by_key s k = find (\<lambda>d. shortcode d = k) (urls s)"

text \<open>The setter \<^verbatim>\<open>trim\<close> has run on every shortcode that is stored.\<close>

definition trimmed_shortcodes :: "store \<Rightarrow> bool" where
  "trimmed_shortcodes s \<longleftrightarrow> list_all (\<lambda>d. js_trim (shortcode d) = shortcode d) (urls s)"

text \<open>An update of the one document with the given key.\<close>

fun update_doc :: "string \<Rightarrow> (url \<Rightarrow> url) \<Rightarrow> url list \<Rightarrow> url list" where
  "update_doc sc f [] = []"
| "update_doc sc f (d # ds) =
     (if shortcode d = sc then f d # ds else d # update_doc sc f ds)"

text \<open>\<^verbatim>\<open>Url.updateOne({ _id: url._id }, { isActive: false })\<close>.\<close>

definition updateOne_inactive :: "store \<Rightarrow> string \<Rightarrow> time \<Rightarrow> store" where
  "updateOne_inactive s sc now =
     s\<lparr>urls := update_doc sc (\<lambda>d. d\<lparr>isActive := False, updatedAt := now\<rparr>) (urls s)\<rparr>"

text \<open>\<^verbatim>\<open>UrlService.getUrlByShortcode\<close>: the link, or \<^verbatim>\<open>null\<close>, and the store after it.\<close>

definition getUrlByShortcode :: "store \<Rightarrow> string \<Rightarrow> time \<Rightarrow> url option \<times> store" where
  "getUrlByShortcode s sc now =
     (case findOne_active s sc of
        None \<Rightarrow> (None, s)
      | Some u \<Rightarrow>
          if isExpired now u then (None, updateOne_inactive s (shortcode u) now)
          else (Some u, s))"

text \<open>
  \<^verbatim>\<open>urlSchema.methods.incrementClicks\<close> on the document \<open>u\<close> that the caller holds in
  memory: the counter of that copy is incremented and \<^verbatim>\<open>save()\<close> writes the two
  modified paths to the stored document.
\<close>

definition incrementClicks :: "store \<Rightarrow> url \<Rightarrow> time \<Rightarrow> store_error + store" where
  "incrementClicks s u now =
     (case find_by_key s (shortcode u) of
        None \<Rightarrow> Inl (DocumentNotFound (shortcode u))
      | Some _ \<Rightarrow>
          Inr (s\<lparr>urls := update_doc (shortcode u)
                 (\<lambda>d. d\<lparr>totalClicks := totalClicks u + 1, lastClickAt := Some now,
                        updatedAt := now\<rparr>) (urls s)\<rparr>))"

text \<open>\<^verbatim>\<open>urlSchema.statics.cleanupExpired\<close> with the \<^verbatim>\<open>modifiedCount\<close> it reports.\<close>

definition cleanupExpired :: "store \<Rightarrow> time \<Rightarrow> nat \<times> store" where
  "cleanupExpired s now =
     (length (filter (\<lambda>d. expiresAt d < now \<and> d\<lparr>isActive := False, updatedAt := now\<rparr> \<noteq> d)
                (urls s)),
      s\<lparr>urls := map (\<lambda>d. if expiresAt d < now
                          then d\<lparr>isActive := False, updatedAt := now\<rparr> else d) (urls s)\<rparr>)"

text \<open>\<^verbatim>\<open>urlSchema.statics.findActive\<close>.\<close>

definition findActive :: "store \<Rightarrow> time \<Rightarrow> url list" where
  "findActive s now = filter (\<lambda>d. isActive d \<and> expiresAt d > now) (urls s)"

section \<open>Click recorder\<close>

record geo =
  geo_country :: string
  geo_region :: string
  geo_city :: string
  geo_timezone :: string
  ll :: "(rat \<times> rat) option"

record requestData =
  req_ip :: "string option"
  req_userAgent :: "string option"
  req_referer :: "string option"

definition empty_location :: location where
  "empty_location =
     \<lparr>country = None, region = None, city = None, timezone = None, coordinates = None\<rparr>"

text \<open>
  \<^verbatim>\<open>UrlService.parseRequestData\<close>; \<open>lookup\<close> is \<^verbatim>\<open>geoip.lookup\<close>, which returns
  \<^verbatim>\<open>null\<close> for an address it cannot resolve.
\<close>

definition parseRequestData ::
  "(string \<Rightarrow> geo option) \<Rightarrow> string \<Rightarrow> requestData \<Rightarrow> clickData" where
  "parseRequestData lookup sc rd =
     (let loc =
        (if truthy (req_ip rd) \<and> req_ip rd \<noteq> Some ''127.0.0.1'' \<and> req_ip rd \<noteq> Some ''::1''
         then (case lookup (or_default (req_ip rd) []) of
                 Some g \<Rightarrow>
                   \<lparr>country = Some (geo_country g), region = Some (geo_region g),
                    city = Some (geo_city g), timezone = Some (geo_timezone g),
                    coordinates = Some (case ll g of
                        Some (la, lo) \<Rightarrow> (Some la, Some lo) | None \<Rightarrow> (None, None))\<rparr>
               | None \<Rightarrow> empty_location)
         else empty_location\<lparr>country := Some ''Local'', city := Some ''Development''\<rparr>)
      in \<lparr>click_shortcode = sc, ip = req_ip rd,
          userAgent = or_default (req_userAgent rd) ''Unknown'',
          referer = or_default (req_referer rd) ''Direct'',
          location = loc, device = parseUserAgent (req_userAgent rd)\<rparr>)"

text \<open>
  \<^verbatim>\<open>getLocationFromIP\<close> of the server file, which no route calls; \<open>a || d\<close> on the
  fields of the resolver's answer.
\<close>

definition getLocationFromIP :: "(string \<Rightarrow> geo option) \<Rightarrow> string \<Rightarrow> string" where
  "getLocationFromIP lookup a =
     (if a = ''127.0.0.1'' \<or> a = ''::1'' \<or> a = ''::ffff:127.0.0.1'' then ''Local Development''
      else (case lookup a of
              Some g \<Rightarrow>
                or_default (Some (geo_city g)) ''Unknown City'' @ '', '' @
                or_default (Some (geo_country g)) ''Unknown Country''
            | None \<Rightarrow> ''Unknown Location''))"

text \<open>\<^verbatim>\<open>new Click(clickData)\<close>: the schema default stamps the time.\<close>

definition new_Click :: "clickData \<Rightarrow> time \<Rightarrow> click" where
  "new_Click cd now =
     \<lparr>click_shortcode = click_shortcode cd, ip = ip cd, userAgent = userAgent cd,
      referer = referer cd, location = location cd, device = device cd, timestamp = now\<rparr>"

text \<open>The validators of \<^verbatim>\<open>clickSchema\<close>, in schema order.\<close>

definition click_errors :: "click \<Rightarrow> (string \<times> string) list" where
  "click_errors c =
     (if click_shortcode c = [] then [(''shortcode'', required_message ''shortcode'')] else []) @
     (if truthy (ip c) then [] else [(''ip'', required_message ''ip'')]) @
     (if length (userAgent c) > 1000
      then [(''userAgent'', maxlength_message ''userAgent'' (userAgent c) ''1000'')] else []) @
     (if length (referer c) > 1000
      then [(''referer'', maxlength_message ''referer'' (referer c) ''1000'')] else []) @
     (if dev_type (device c) \<in> set [''mobile'', ''desktop'', ''tablet'', ''unknown''] then []
      else [(''device.type'', ''`'' @ dev_type (device c) @
             ''` is not a valid enum value for path `device.type`.'')])"

definition click_save :: "store \<Rightarrow> click \<Rightarrow> store_error + store" where
  "click_save s c =
     (if click_errors c = [] then Inr (s\<lparr>clicks := clicks s @ [c]\<rparr>)
      else Inl (ValidationError ''Click'' (click_errors c)))"

text \<open>
  \<^verbatim>\<open>UrlService.recordClick\<close>: \<open>Inr (Some target)\<close>, \<open>Inr None\<close> for \<^verbatim>\<open>null\<close>, or
  \<open>Inl\<close> the message of the error it throws.
\<close>

definition recordClick ::
  "(string \<Rightarrow> geo option) \<Rightarrow> store \<Rightarrow> string \<Rightarrow> requestData \<Rightarrow> time
     \<Rightarrow> (string + string option) \<times> store" where
  "recordClick lookup s sc rd now =
     (case getUrlByShortcode s sc now of
        (None, s1) \<Rightarrow> (Inr None, s1)
      | (Some u, s1) \<Rightarrow>
          (case click_save s1 (new_Click (parseRequestData lookup sc rd) now) of
             Inl err \<Rightarrow> (Inl (''Failed to record click: '' @ message err), s1)
           | Inr s2 \<Rightarrow>
               (case incrementClicks s2 u now of
                  Inl err \<Rightarrow> (Inl (''Failed to record click: '' @ message err), s2)
                | Inr s3 \<Rightarrow> (Inr (Some (originalUrl u)), s3))))"

subsection \<open>Concurrent invocations\<close>

text \<open>
  Node runs the code between two \<^verbatim>\<open>await\<close>s without interruption, and every
  \<^verbatim>\<open>await\<close> of \<^verbatim>\<open>recordClick\<close> is one operation of the store. An invocation is
  therefore a sequence of atomic steps, each one store operation followed by the code
  up to the next one; the document it holds in memory travels with its position.
\<close>

datatype position =
    AtFindOne
  | AtUpdateOne url
  | AtClickSave url
  | AtIncrement url
  | Finished "string + string option"

definition recordClick_step ::
  "(string \<Rightarrow> geo option) \<Rightarrow> string \<Rightarrow> requestData \<Rightarrow> time \<Rightarrow> store \<Rightarrow> position
     \<Rightarrow> store \<times> position" where
  "recordClick_step lookup sc rd now s pos =
     (case pos of
        AtFindOne \<Rightarrow>
          (case findOne_active s sc of
             None \<Rightarrow> (s, Finished (Inr None))
           | Some u \<Rightarrow> if isExpired now u then (s, AtUpdateOne u) else (s, AtClickSave u))
      | AtUpdateOne u \<Rightarrow> (updateOne_inactive s (shortcode u) now, Finished (Inr None))
      | AtClickSave u \<Rightarrow>
          (case click_save s (new_Click (parseRequestData lookup sc rd) now) of
             Inl err \<Rightarrow> (s, Finished (Inl (''Failed to record click: '' @ message err)))
           | Inr s2 \<Rightarrow> (s2, AtIncrement u))
      | AtIncrement u \<Rightarrow>
          (case incrementClicks s u now of
             Inl err \<Rightarrow> (s, Finished (Inl (''Failed to record click: '' @ message err)))
           | Inr s3 \<Rightarrow> (s3, Finished (Inr (Some (originalUrl u)))))
      | Finished r \<Rightarrow> (s, Finished r))"

record invocation =
  inv_request :: requestData
  inv_time :: time
  inv_position :: position

text \<open>A schedule names, step by step, the invocation that performs its next step.\<close>

fun run_schedule ::
  "(string \<Rightarrow> geo option) \<Rightarrow> string \<Rightarrow> nat list \<Rightarrow> store \<times> invocation list
     \<Rightarrow> store \<times> invocation list" where
  "run_schedule lookup sc [] cfg = cfg"
| "run_schedule lookup sc (i # sched) (s, invs) =
     (if i < length invs
      then (case recordClick_step lookup sc (inv_request (invs ! i)) (inv_time (invs ! i)) s
                   (inv_position (invs ! i)) of
              (s', pos') \<Rightarrow>
                run_schedule lookup sc sched (s', invs[i := (invs ! i)\<lparr>inv_position := pos'\<rparr>]))
      else run_schedule lookup sc sched (s, invs))"

text \<open>Invocations one after the other, each at its own time.\<close>

fun recordClicks ::
  "(string \<Rightarrow> geo option) \<Rightarrow> store \<Rightarrow> string \<Rightarrow> (requestData \<times> time) list
     \<Rightarrow> (string + string option) list \<times> store" where
  "recordClicks lookup s sc [] = ([], s)"
| "recordClicks lookup s sc ((rd, now) # rest) =
     (case recordClick lookup s sc rd now of
        (r, s1) \<Rightarrow> (case recordClicks lookup s1 sc rest of (rs, s2) \<Rightarrow> (r # rs, s2)))"

section \<open>Analytics aggregator\<close>

text \<open>
  \<^verbatim>\<open>cursor.limit(n)\<close>: MongoDB reads a limit of 0 as no limit. The order among
  documents with equal sort keys is not fixed by the store; the model keeps them in
  insertion order.
\<close>

definition mongo_limit :: "nat \<Rightarrow> 'a list \<Rightarrow> 'a list" where
  "mongo_limit n xs = (if n = 0 then xs else take n xs)"

definition select_minus_ip :: "click \<Rightarrow> click" where
  "select_minus_ip c = c\<lparr>ip := None\<rparr>"

definition clicks_of :: "store \<Rightarrow> string \<Rightarrow> click list" where
  "clicks_of s sc = filter (\<lambda>c. click_shortcode c = sc) (clicks s)"

text \<open>\<^verbatim>\<open>clickSchema.statics.getClicksByShortcode\<close>.\<close>

definition getClicksByShortcode :: "store \<Rightarrow> string \<Rightarrow> nat \<Rightarrow> click list" where
  "getClicksByShortcode s sc limit =
     map select_minus_ip
       (mongo_limit limit (sort_key (\<lambda>c. - timestamp c) (clicks_of s sc)))"

text \<open>The \<^verbatim>\<open>$group\<close> stage: the keys in order of first appearance, with their groups.\<close>

definition group_by :: "('a \<Rightarrow> 'k) \<Rightarrow> 'a list \<Rightarrow> ('k \<times> 'a list) list" where
  "group_by key xs =
     map (\<lambda>k. (k, filter (\<lambda>x. key x = k) xs)) (rev (remdups (rev (map key xs))))"

definition max_time :: "time list \<Rightarrow> time" where
  "max_time ts = fold max ts (case ts of [] \<Rightarrow> 0 | t # _ \<Rightarrow> t)"

definition getLocationStats ::
  "store \<Rightarrow> string \<Rightarrow> ((string option \<times> string option) \<times> nat \<times> time) list" where
  "getLocationStats s sc =
     take 50 (sort_key (\<lambda>(k, n, t). - int n)
       (map (\<lambda>(k, g). (k, length g, max_time (map timestamp g)))
          (group_by (\<lambda>c. (country (location c), city (location c))) (clicks_of s sc))))"

definition getDeviceStats :: "store \<Rightarrow> string \<Rightarrow> ((string \<times> string \<times> string) \<times> nat) list" where
  "getDeviceStats s sc =
     sort_key (\<lambda>(k, n). - int n)
       (map (\<lambda>(k, g). (k, length g))
          (group_by (\<lambda>c. (dev_type (device c), browser (device c), os (device c)))
             (clicks_of s sc)))"

definition getRefererStats :: "store \<Rightarrow> string \<Rightarrow> (string \<times> nat) list" where
  "getRefererStats s sc =
     take 20 (sort_key (\<lambda>(k, n). - int n)
       (map (\<lambda>(k, g). (k, length g)) (group_by referer (clicks_of s sc))))"

record urlStats =
  st_originalUrl :: string
  st_shortcode :: string
  st_createdAt :: time
  st_expiresAt :: time
  st_isActive :: bool
  st_isExpired :: bool
  st_totalClicks :: int
  st_lastClickAt :: "time option"
  st_tags :: "string list"
  st_description :: "string option"
  recentClicks :: "click list"
  locationStats :: "((string option \<times> string option) \<times> nat \<times> time) list"
  deviceStats :: "((string \<times> string \<times> string) \<times> nat) list"
  refererStats :: "(string \<times> nat) list"

text \<open>\<^verbatim>\<open>UrlService.getUrlStats\<close>; \<open>None\<close> is \<^verbatim>\<open>null\<close>.\<close>

definition getUrlStats :: "store \<Rightarrow> string \<Rightarrow> time \<Rightarrow> urlStats option" where
  "getUrlStats s sc now =
     (case findOne s sc of
        None \<Rightarrow> None
      | Some u \<Rightarrow>
          Some \<lparr>st_originalUrl = originalUrl u, st_shortcode = shortcode u,
                st_createdAt = createdAt u, st_expiresAt = expiresAt u,
                st_isActive = isActive u, st_isExpired = isExpired now u,
                st_totalClicks = totalClicks u, st_lastClickAt = lastClickAt u,
                st_tags = tags u, st_description = description u,
                recentClicks = getClicksByShortcode s sc 100,
                locationStats = getLocationStats s sc,
                deviceStats = getDeviceStats s sc,
                refererStats = getRefererStats s sc\<rparr>)"

section \<open>Shortcode generator and link creation\<close>

definition chars62 :: string where
  "chars62 = upper_letters @ lower_letters @ digit_chars"

text \<open>\<^verbatim>\<open>s.charAt(i)\<close> is the empty string when \<open>i\<close> is out of range.\<close>

definition charAt :: "string \<Rightarrow> int \<Rightarrow> string" where
  "charAt s i = (if 0 \<le> i \<and> i < int (length s) then [s ! nat i] else [])"

text \<open>
  \<^verbatim>\<open>generateRandomShortcode\<close>; \<open>rnd\<close> is the sequence of values that
  \<^verbatim>\<open>Math.random()\<close> returns and \<open>k\<close> the number of values already drawn.
\<close>

definition generateRandomShortcode :: "(nat \<Rightarrow> rat) \<Rightarrow> nat \<Rightarrow> string" where
  "generateRandomShortcode rnd k =
     concat (map (\<lambda>i. charAt chars62 \<lfloor>rnd (k + i) * of_nat (length chars62)\<rfloor>) [0..<7])"

text \<open>
  The loop of the pre-save hook, \<^verbatim>\<open>while (exists) { ... }\<close>. Nothing bounds it:
  \<open>None\<close> is the run that never leaves it.
\<close>

partial_function (option) generate_loop :: "(nat \<Rightarrow> rat) \<Rightarrow> store \<Rightarrow> nat \<Rightarrow> string option" where
  "generate_loop rnd s k =
     (if findOne s (generateRandomShortcode rnd k) \<noteq> None
      then generate_loop rnd s (k + 7)
      else Some (generateRandomShortcode rnd k))"

declare generate_loop.simps [code]

text \<open>
  The document under construction, \<^verbatim>\<open>new Url({ ... })\<close>, before it is saved; the
  expiry is \<open>None\<close> when the \<^verbatim>\<open>Date\<close> is invalid.
\<close>

record urlDraft =
  d_shortcode :: "string option"
  d_originalUrl :: string
  d_expiresAt :: "time option"
  d_tags :: "string list"
  d_description :: "string option"

text \<open>The validator of \<^verbatim>\<open>originalUrl\<close>, \<^verbatim>\<open>/^https?:\/\/.+/\<close>.\<close>

definition dot_plus :: "string \<Rightarrow> bool" where
  "dot_plus r = (case r of [] \<Rightarrow> False | c # _ \<Rightarrow> c \<noteq> CHR 0x0A \<and> c \<noteq> CHR 0x0D)"

definition urlPattern :: "string \<Rightarrow> bool" where
  "urlPattern v \<longleftrightarrow>
     (startsWith v ''http://'' \<and> dot_plus (drop 7 v)) \<or>
     (startsWith v ''https://'' \<and> dot_plus (drop 8 v))"

text \<open>The validators of \<^verbatim>\<open>urlSchema\<close>, in schema order.\<close>

definition url_errors :: "urlDraft \<Rightarrow> (string \<times> string) list" where
  "url_errors d =
     (if \<not> truthy (d_shortcode d) then [(''shortcode'', required_message ''shortcode'')]
      else if length (or_default (d_shortcode d) []) < 3
      then [(''shortcode'', minlength_message ''shortcode'' (or_default (d_shortcode d) []) ''3'')]
      else if length (or_default (d_shortcode d) []) > 20
      then [(''shortcode'', maxlength_message ''shortcode'' (or_default (d_shortcode d) []) ''20'')]
      else []) @
     (if d_originalUrl d = [] then [(''originalUrl'', required_message ''originalUrl'')]
      else if \<not> urlPattern (d_originalUrl d) then [(''originalUrl'', ''Invalid URL format'')]
      else []) @
     (if d_expiresAt d = None then [(''expiresAt'', cast_date_message ''expiresAt'')] else []) @
     (case d_description d of
        None \<Rightarrow> []
      | Some t \<Rightarrow> if length t > 500
                  then [(''description'', maxlength_message ''description'' t ''500'')] else [])"

text \<open>The pre-save hook: a new document without a shortcode gets a generated one.\<close>

definition pre_save :: "(nat \<Rightarrow> rat) \<Rightarrow> store \<Rightarrow> urlDraft \<Rightarrow> urlDraft option" where
  "pre_save rnd s d =
     (if \<not> truthy (d_shortcode d)
      then map_option (\<lambda>sc. d\<lparr>d_shortcode := Some sc\<rparr>) (generate_loop rnd s 0)
      else Some d)"

text \<open>The insert; the unique index on \<^verbatim>\<open>shortcode\<close> rejects a second document.\<close>

definition insert_url ::
  "store \<Rightarrow> urlDraft \<Rightarrow> time \<Rightarrow> time \<Rightarrow> store_error + url \<times> store" where
  "insert_url s d expires now =
     (let u = \<lparr>shortcode = or_default (d_shortcode d) [], originalUrl = d_originalUrl d,
               createdAt = now, updatedAt = now, expiresAt = expires, isActive = True,
               totalClicks = 0, lastClickAt = None, tags = d_tags d,
               description = d_description d\<rparr>
      in if find_by_key s (shortcode u) \<noteq> None then Inl (DuplicateKey (shortcode u))
         else Inr (u, s\<lparr>urls := urls s @ [u]\<rparr>))"

text \<open>
  \<^verbatim>\<open>urlDoc.save()\<close>. Mongoose validates in a hook of its own that runs before the
  hooks registered with \<^verbatim>\<open>pre('save')\<close>: the schema validators see the document as
  it was constructed, then the hook of the repository runs, then the insert.
\<close>

definition save_url ::
  "(nat \<Rightarrow> rat) \<Rightarrow> store \<Rightarrow> urlDraft \<Rightarrow> time \<Rightarrow> (store_error + url \<times> store) option" where
  "save_url rnd s d now =
     (if url_errors d \<noteq> [] then Some (Inl (ValidationError ''Url'' (url_errors d)))
      else (case pre_save rnd s d of
              None \<Rightarrow> None
            | Some d' \<Rightarrow>
                (case d_expiresAt d' of
                   None \<Rightarrow> Some (Inl (ValidationError ''Url'' (url_errors d')))
                 | Some expires \<Rightarrow> Some (insert_url s d' expires now))))"

text \<open>What the process is given from outside the repository.\<close>

record env =
  dbConnected :: bool
  isURL :: "string \<Rightarrow> bool"
  random :: "nat \<Rightarrow> rat"
  baseUrl :: string
  double_date :: "time \<Rightarrow> rat \<Rightarrow> time option"

record createData =
  cd_originalUrl :: string
  cd_validity :: "rat option"
  cd_shortcode :: "string option"
  cd_tags :: "string list"
  cd_description :: "string option"

record created =
  r_shortcode :: string
  r_originalUrl :: string
  r_shortLink :: string
  r_expiresAt :: time
  r_createdAt :: time

text \<open>
  \<^verbatim>\<open>new Date(Date.now() + validity * 60 * 1000)\<close>. The code computes in IEEE doubles.
  When the validity is a whole number of half minutes and every value of the
  computation is an integer below 9007199254740992 in size, no step rounds and the result is the
  exact sum: a \<^verbatim>\<open>Date\<close> if its size is at most 8640000000000000, the invalid date
  beyond. For every other validity the result depends on the rounding of the products;
  it is \<open>double_date\<close> of the environment.
\<close>

definition half_minutes :: "rat \<Rightarrow> bool" where
  "half_minutes v \<longleftrightarrow> of_int \<lfloor>2 * v\<rfloor> = 2 * v"

definition exact_double :: "rat \<Rightarrow> bool" where
  "exact_double x \<longleftrightarrow> \<bar>x\<bar> < 9007199254740992"

definition expiry_date :: "(time \<Rightarrow> rat \<Rightarrow> time option) \<Rightarrow> time \<Rightarrow> rat \<Rightarrow> time option" where
  "expiry_date dd now v =
     (if half_minutes v \<and> exact_double (of_int now) \<and> exact_double (v * 60 * 1000) \<and>
         exact_double (of_int now + v * 60 * 1000)
      then (if \<bar>of_int now + v * 60 * 1000\<bar> \<le> 8640000000000000
            then Some \<lfloor>of_int now + v * 60 * 1000\<rfloor> else None)
      else dd now v)"

text \<open>
  \<^verbatim>\<open>UrlService.createShortUrl\<close>: \<open>Inl\<close> the message of the error it throws; \<open>None\<close>
  when the generation loop never ends.
\<close>

definition createShortUrl ::
  "env \<Rightarrow> store \<Rightarrow> createData \<Rightarrow> time \<Rightarrow> ((string + created) \<times> store) option" where
  "createShortUrl e s cd now =
     (let validity = (case cd_validity cd of None \<Rightarrow> 30 | Some v \<Rightarrow> v);
          expires = expiry_date (double_date e) now validity
      in if truthy (cd_shortcode cd) \<and> findOne_active s (or_default (cd_shortcode cd) []) \<noteq> None
         then Some (Inl (''Failed to create short URL: '' @ ''Custom shortcode already exists''), s)
         else (case save_url (random e) s
                      \<lparr>d_shortcode = map_option js_trim (cd_shortcode cd),
                       d_originalUrl = cd_originalUrl cd, d_expiresAt = expires,
                       d_tags = map js_trim (cd_tags cd),
                       d_description = cd_description cd\<rparr> now of
                 None \<Rightarrow> None
               | Some (Inl err) \<Rightarrow> Some (Inl (''Failed to create short URL: '' @ message err), s)
               | Some (Inr (u, s')) \<Rightarrow>
                   Some (Inr \<lparr>r_shortcode = shortcode u, r_originalUrl = originalUrl u,
                              r_shortLink = baseUrl e @ ''/'' @ shortcode u,
                              r_expiresAt = expiresAt u, r_createdAt = createdAt u\<rparr>, s')))"

subsection \<open>The handler of \<^verbatim>\<open>POST /shorturls\<close>\<close>

text \<open>
  The body of the request; \<^verbatim>\<open>validity\<close> is absent or the number that the parser of
  the body produced (a double, taken as the rational it denotes). A response is
  the 201 answer with \<^verbatim>\<open>shortLink\<close>, \<^verbatim>\<open>expiry\<close> and \<^verbatim>\<open>shortcode\<close>, or a status with the
  \<^verbatim>\<open>code\<close> of the error.
\<close>

record createBody =
  b_url :: "string option"
  b_validity :: "rat option"
  b_shortcode :: "string option"
  b_tags :: "string list option"
  b_description :: "string option"

datatype response = Created string time string | Failure nat string

text \<open>\<^verbatim>\<open>/^[a-zA-Z0-9]+$/\<close>.\<close>

definition alnum_regex :: "string \<Rightarrow> bool" where
  "alnum_regex v \<longleftrightarrow> v \<noteq> [] \<and> list_all (\<lambda>c. c \<in> set chars62) v"

definition post_shorturls ::
  "env \<Rightarrow> store \<Rightarrow> createBody \<Rightarrow> time \<Rightarrow> (response \<times> store) option" where
  "post_shorturls e s b now =
     (if \<not> dbConnected e then Some (Failure 503 ''DATABASE_UNAVAILABLE'', s)
      else if \<not> truthy (b_url b) then Some (Failure 400 ''MISSING_URL'', s)
      else if \<not> isURL e (or_default (b_url b) []) then Some (Failure 400 ''INVALID_URL'', s)
      else if truthy (b_shortcode b) \<and> \<not> alnum_regex (or_default (b_shortcode b) [])
      then Some (Failure 400 ''INVALID_SHORTCODE'', s)
      else if truthy (b_shortcode b) \<and>
              (length (or_default (b_shortcode b) []) < 3 \<or>
               length (or_default (b_shortcode b) []) > 20)
      then Some (Failure 400 ''INVALID_SHORTCODE_LENGTH'', s)
      else
        (let validityMinutes =
               (case b_validity b of None \<Rightarrow> 30 | Some v \<Rightarrow> if v = 0 then 30 else v)
         in if validityMinutes \<le> 0 \<or> validityMinutes > 525600
            then Some (Failure 400 ''INVALID_VALIDITY'', s)
            else (case createShortUrl e s
                         \<lparr>cd_originalUrl = or_default (b_url b) [],
                          cd_validity = Some validityMinutes,
                          cd_shortcode = b_shortcode b,
                          cd_tags = (case b_tags b of None \<Rightarrow> [] | Some ts \<Rightarrow> ts),
                          cd_description = b_description b\<rparr> now of
                    None \<Rightarrow> None
                  | Some (Inl msg, s') \<Rightarrow>
                      Some (if str_includes msg ''already exists''
                            then Failure 409 ''SHORTCODE_EXISTS''
                            else Failure 500 ''INTERNAL_ERROR'', s')
                  | Some (Inr r, s') \<Rightarrow>
                      Some (Created (r_shortLink r) (r_expiresAt r) (r_shortcode r), s'))))"

text \<open>The shortcode constraint of the specification, \<^verbatim>\<open>^[A-Za-z0-9]{3,20}$\<close>.\<close>

definition spec_shortcode :: "string \<Rightarrow> bool" where
  "spec_shortcode v \<longleftrightarrow>
     3 \<le> length v \<and> length v \<le> 20 \<and>
     list_all (\<lambda>c. c \<in> set upper_letters \<or> c \<in> set lower_letters \<or> c \<in> set digit_chars) v"

definition iphone_safari_ua :: string where
  "iphone_safari_ua =
     ''Mozilla/5.0 (iPhone; CPU iPhone OS 16_0 like Mac OS X) AppleWebKit/605.1.15 (KHTML, like Gecko) Version/16.0 Mobile/15E148 Safari/604.1''"

section \<open>Example data\<close>

definition example_link :: url where
  "example_link =
     \<lparr>shortcode = ''abc'', originalUrl = ''https://example.com'', createdAt = 0,
      updatedAt = 0, expiresAt = 60000, isActive = True, totalClicks = 0,
      lastClickAt = None, tags = [], description = None\<rparr>"

definition example_store :: store where
  "example_store = \<lparr>urls = [example_link], clicks = []\<rparr>"

definition example_request :: requestData where
  "example_request =
     \<lparr>req_ip = Some ''203.0.113.9'', req_userAgent = Some ''curl/8.0'', req_referer = None\<rparr>"

definition no_geo :: "string \<Rightarrow> geo option" where
  "no_geo a = None"


definition loopback_request :: requestData where
  "loopback_request =
     \<lparr>req_ip = Some ''::ffff:127.0.0.1'', req_userAgent = Some ''curl/8.0'', req_referer = None\<rparr>"

definition two_invocations :: "invocation list" where
  "two_invocations =
     [\<lparr>inv_request = example_request, inv_time = 1000, inv_position = AtFindOne\<rparr>,
      \<lparr>inv_request = example_request, inv_time = 1001, inv_position = AtFindOne\<rparr>]"


definition expired_link :: url where
  "expired_link = example_link\<lparr>shortcode := ''old'', expiresAt := 500\<rparr>"

definition inactive_link :: url where
  "inactive_link = example_link\<lparr>shortcode := ''off'', isActive := False, totalClicks := 3\<rparr>"

definition example_click :: "string \<Rightarrow> time \<Rightarrow> click" where
  "example_click sc t = new_Click (parseRequestData no_geo sc example_request) t"

definition mixed_store :: store where
  "mixed_store =
     \<lparr>urls = [example_link, expired_link, inactive_link],
      clicks = [example_click ''abc'' 10, example_click ''off'' 20, example_click ''abc'' 30,
                example_click ''abc'' 20]\<rparr>"


text \<open>
  An environment; the examples use validities for which the arithmetic is exact, so its
  \<open>double_date\<close> is never consulted.
\<close>

definition example_env :: env where
  "example_env =
     \<lparr>dbConnected = True, isURL = (\<lambda>v. v = ''https://example.com''),
      random = (\<lambda>n. of_nat (n mod 10) / 10), baseUrl = ''http://localhost:8080'',
      double_date = (\<lambda>now v. None)\<rparr>"


definition example_body :: "rat option \<Rightarrow> string option \<Rightarrow> createBody" where
  "example_body v sc =
     \<lparr>b_url = Some ''https://example.com'', b_validity = v, b_shortcode = sc,
      b_tags = None, b_description = None\<rparr>"

definition empty_store :: store where
  "empty_store = \<lparr>urls = [], clicks = []\<rparr>"

definition swept_store :: store where
  "swept_store = \<lparr>urls = [example_link\<lparr>isActive := False\<rparr>], clicks = []\<rparr>"

text \<open>The checks of the handler that come before the check of the validity.\<close>

definition early_checks_pass :: "env \<Rightarrow> createBody \<Rightarrow> bool" where
  "early_checks_pass e b \<longleftrightarrow>
     dbConnected e \<and> truthy (b_url b) \<and> isURL e (or_default (b_url b) []) \<and>
     (truthy (b_shortcode b) \<longrightarrow>
        alnum_regex (or_default (b_shortcode b) []) \<and>
        3 \<le> length (or_default (b_shortcode b) []) \<and>
        length (or_default (b_shortcode b) []) \<le> 20)"

text \<open>The validity that the handler passes on: absent, or zero, or within the bounds.\<close>

definition validity_passes :: "createBody \<Rightarrow> bool" where
  "validity_passes b \<longleftrightarrow>
     (case b_validity b of None \<Rightarrow> True | Some v \<Rightarrow> v = 0 \<or> (0 < v \<and> v \<le> 525600))"


text \<open>What the handler hands to \<^verbatim>\<open>createShortUrl\<close>.\<close>

definition validityMinutes :: "createBody \<Rightarrow> rat" where
  "validityMinutes b = (case b_validity b of None \<Rightarrow> 30 | Some v \<Rightarrow> if v = 0 then 30 else v)"

definition handler_data :: "createBody \<Rightarrow> createData" where
  "handler_data b =
     \<lparr>cd_originalUrl = or_default (b_url b) [], cd_validity = Some (validityMinutes b),
      cd_shortcode = b_shortcode b,
      cd_tags = (case b_tags b of None \<Rightarrow> [] | Some ts \<Rightarrow> ts),
      cd_description = b_description b\<rparr>"

definition description_fits :: "createBody \<Rightarrow> bool" where
  "description_fits b \<longleftrightarrow> (case b_description b of None \<Rightarrow> True | Some t \<Rightarrow> length t \<le> 500)"


section \<open>Properties of the user-agent classifier\<close>

lemma parseUserAgent_spec_classify:
  "parseUserAgent hdr =
     spec_classify (toLowerCase (case hdr of None \<Rightarrow> [] | Some v \<Rightarrow> v))"
  by (simp add: parseUserAgent_def spec_classify_def Let_def detect_type_def
      detect_browser_def detect_os_def mobile_regex_def tablet_regex_def
      spec_device_table_def spec_browser_table_def spec_os_table_def)

text \<open>
  Claim C5, as amended. The classifier is a function of the lower-cased user-agent
  string alone and agrees with the ordered first-match tables of the specification:
  mobile keywords before tablet keywords before desktop; chrome, firefox, safari, edge,
  opera; windows, mac, linux, android, then the iOS family. A user agent with
  \<^verbatim>\<open>iphone\<close> and \<^verbatim>\<open>safari\<close> in it classifies as mobile / Safari / iOS provided none of
  the tokens of higher priority (chrome, firefox; windows, mac, linux, android) occurs
  in it.
\<close>

theorem parseUserAgent_first_match:
  "parseUserAgent hdr =
     spec_classify (toLowerCase (case hdr of None \<Rightarrow> [] | Some v \<Rightarrow> v)) \<and>
   (toLowerCase a = toLowerCase b \<longrightarrow> parseUserAgent (Some a) = parseUserAgent (Some b)) \<and>
   (str_includes (toLowerCase a) ''iphone'' \<and> str_includes (toLowerCase a) ''safari'' \<and>
    \<not> str_includes (toLowerCase a) ''chrome'' \<and> \<not> str_includes (toLowerCase a) ''firefox'' \<and>
    \<not> str_includes (toLowerCase a) ''windows'' \<and> \<not> str_includes (toLowerCase a) ''mac'' \<and>
    \<not> str_includes (toLowerCase a) ''linux'' \<and> \<not> str_includes (toLowerCase a) ''android''
    \<longrightarrow> parseUserAgent (Some a) =
          \<lparr>dev_type = ''mobile'', browser = ''Safari'', os = ''iOS'', isMobile = True\<rparr>)"
proof (intro conjI impI)
  show "parseUserAgent hdr =
          spec_classify (toLowerCase (case hdr of None \<Rightarrow> [] | Some v \<Rightarrow> v))"
    by (rule parseUserAgent_spec_classify)
next
  assume "toLowerCase a = toLowerCase b"
  then show "parseUserAgent (Some a) = parseUserAgent (Some b)"
    by (simp add: parseUserAgent_spec_classify)
next
  assume "str_includes (toLowerCase a) ''iphone'' \<and> str_includes (toLowerCase a) ''safari'' \<and>
    \<not> str_includes (toLowerCase a) ''chrome'' \<and> \<not> str_includes (toLowerCase a) ''firefox'' \<and>
    \<not> str_includes (toLowerCase a) ''windows'' \<and> \<not> str_includes (toLowerCase a) ''mac'' \<and>
    \<not> str_includes (toLowerCase a) ''linux'' \<and> \<not> str_includes (toLowerCase a) ''android''"
  then show "parseUserAgent (Some a) =
          \<lparr>dev_type = ''mobile'', browser = ''Safari'', os = ''iOS'', isMobile = True\<rparr>"
    by (simp add: parseUserAgent_def Let_def detect_type_def detect_browser_def
        detect_os_def mobile_regex_def)
qed

theorem parseUserAgent_first_match_witness:
  "parseUserAgent (Some ''Mozilla ... iPhone ... Safari'') =
     \<lparr>dev_type = ''mobile'', browser = ''Safari'', os = ''iOS'', isMobile = True\<rparr>"
proof -
  define a where "a = toLowerCase ''Mozilla ... iPhone ... Safari''"
  have a: "a = ''mozilla ... iphone ... safari''"
    by (simp add: a_def toLowerCase_def lower_char_def upper_letters_def lower_letters_def)
  have "str_includes a ''iphone'' \<and> str_includes a ''safari'' \<and>
    \<not> str_includes a ''chrome'' \<and> \<not> str_includes a ''firefox'' \<and>
    \<not> str_includes a ''windows'' \<and> \<not> str_includes a ''mac'' \<and>
    \<not> str_includes a ''linux'' \<and> \<not> str_includes a ''android''"
    unfolding a by simp
  with parseUserAgent_first_match [of None "''Mozilla ... iPhone ... Safari''" "[]"]
  show ?thesis
    unfolding a_def by blast
qed

text \<open>
  The user agent that Safari on an iPhone sends contains \<^verbatim>\<open>Mozilla\<close>, \<^verbatim>\<open>iPhone\<close> and
  \<^verbatim>\<open>Safari\<close>, and also \<^verbatim>\<open>like Mac OS X\<close>: its operating system is classified as macOS.
\<close>

theorem parseUserAgent_iphone_counterexample:
  "str_includes iphone_safari_ua ''Mozilla'' \<and> str_includes iphone_safari_ua ''iPhone'' \<and>
   str_includes iphone_safari_ua ''Safari'' \<and>
   parseUserAgent (Some iphone_safari_ua) =
     \<lparr>dev_type = ''mobile'', browser = ''Safari'', os = ''macOS'', isMobile = True\<rparr> \<and>
   os (parseUserAgent (Some iphone_safari_ua)) \<noteq> ''iOS''"
  by (simp add: iphone_safari_ua_def parseUserAgent_def Let_def detect_type_def
      detect_browser_def detect_os_def mobile_regex_def toLowerCase_def lower_char_def
      upper_letters_def lower_letters_def)

section \<open>Facts about the store operations\<close>

lemma update_doc_length: "length (update_doc sc f ds) = length ds"
  by (induction ds) auto

lemma update_doc_map: "(\<And>d. g (f d) = g d) \<Longrightarrow> map g (update_doc sc f ds) = map g ds"
  by (induction ds) auto

lemma distinct_shortcode_Cons:
  "distinct (map shortcode (d # ds)) \<Longrightarrow> x \<in> set ds \<Longrightarrow> shortcode x \<noteq> shortcode (d :: url)"
  by (metis distinct.simps(2) image_eqI list.simps(9) set_map)


lemma find_active_update:
  "distinct (map shortcode ds) \<Longrightarrow> find (\<lambda>d. shortcode d = sc \<and> isActive d) ds = Some u
     \<Longrightarrow> shortcode (f u) = sc \<Longrightarrow> isActive (f u)
     \<Longrightarrow> find (\<lambda>d. shortcode d = sc \<and> isActive d) (update_doc sc f ds) = Some (f u)"
proof (induction ds)
  case Nil
  then show ?case by simp
next
  case (Cons d ds)
  show ?case
  proof (cases "shortcode d = sc")
    case True
    show ?thesis
    proof (cases "isActive d")
      case True
      with \<open>shortcode d = sc\<close> Cons.prems show ?thesis by simp
    next
      case False
      with Cons.prems have "find (\<lambda>d. shortcode d = sc \<and> isActive d) ds = Some u" by simp
      then have "u \<in> set ds" "shortcode u = sc"
        by (auto simp: find_Some_iff)
      with True Cons.prems(1) show ?thesis
        using distinct_shortcode_Cons by blast
    qed
  next
    case False
    with Cons show ?thesis by simp
  qed
qed

lemma find_active_find:
  "find (\<lambda>d. shortcode d = sc \<and> isActive d) ds = Some (u :: url) \<Longrightarrow> find (\<lambda>d. shortcode d = sc) ds \<noteq> None"
  by (induction ds) (auto split: if_splits)

lemma find_unique_active:
  "distinct (map shortcode ds) \<Longrightarrow> find (\<lambda>d. shortcode d = sc) ds = Some (u :: url)
     \<Longrightarrow> find (\<lambda>d. shortcode d = sc \<and> isActive d) ds = (if isActive u then Some u else None)"
proof (induction ds)
  case Nil
  then show ?case by simp
next
  case (Cons d ds)
  show ?case
  proof (cases "shortcode d = sc")
    case True
    with Cons.prems have "u = d" by simp
    from Cons.prems(1) True have "\<forall>x \<in> set ds. shortcode x \<noteq> sc"
      using distinct_shortcode_Cons [of d ds] by auto
    then have "find (\<lambda>d. shortcode d = sc \<and> isActive d) ds = None"
      by (auto simp: find_None_iff)
    with True \<open>u = d\<close> show ?thesis by simp
  next
    case False
    with Cons show ?thesis by simp
  qed
qed

lemma detect_type_enum: "detect_type ua \<in> set [''mobile'', ''desktop'', ''tablet'', ''unknown'']"
  by (simp add: detect_type_def)

lemma click_errors_ok:
  "sc \<noteq> [] \<Longrightarrow> truthy (req_ip rd) \<Longrightarrow> length (or_default (req_userAgent rd) ''Unknown'') \<le> 1000
     \<Longrightarrow> length (or_default (req_referer rd) ''Direct'') \<le> 1000
     \<Longrightarrow> click_errors (new_Click (parseRequestData lookup sc rd) now) = []"
  using detect_type_enum
  by (simp add: click_errors_def new_Click_def parseRequestData_def Let_def parseUserAgent_def del: set_simps)

section \<open>Properties of the click recorder\<close>





lemma recordClick_success:
  assumes "findOne_active s sc = Some u" and "\<not> isExpired now u" and "sc \<noteq> []"
    and "truthy (req_ip rd)"
    and "length (or_default (req_userAgent rd) ''Unknown'') \<le> 1000"
    and "length (or_default (req_referer rd) ''Direct'') \<le> 1000"
  shows "recordClick lookup s sc rd now =
           (Inr (Some (originalUrl u)),
            s\<lparr>clicks := clicks s @ [new_Click (parseRequestData lookup sc rd) now],
              urls := update_doc (js_trim sc)
                (\<lambda>d. d\<lparr>totalClicks := totalClicks u + 1, lastClickAt := Some now,
                       updatedAt := now\<rparr>) (urls s)\<rparr>)"
proof -
  have sc: "shortcode u = js_trim sc"
    using assms(1) by (auto simp: findOne_active_def find_Some_iff)
  have g: "getUrlByShortcode s sc now = (Some u, s)"
    using assms(1,2) by (simp add: getUrlByShortcode_def)
  have c: "click_save s (new_Click (parseRequestData lookup sc rd) now) =
             Inr (s\<lparr>clicks := clicks s @ [new_Click (parseRequestData lookup sc rd) now]\<rparr>)"
    using assms(3-6) by (simp add: click_save_def click_errors_ok)
  have f: "find_by_key (s\<lparr>clicks := clicks s @ [new_Click (parseRequestData lookup sc rd) now]\<rparr>)
             (shortcode u) \<noteq> None"
    using assms(1) sc find_active_find [of "js_trim sc" "urls s" u]
    by (simp add: find_by_key_def findOne_active_def)
  show ?thesis
    using f by (auto simp: recordClick_def g c incrementClicks_def sc)
qed

lemma recordClick_success_state:
  assumes "unique_index s" and "findOne_active s sc = Some u" and "\<not> isExpired now u"
    and "sc \<noteq> []" and "truthy (req_ip rd)"
    and "length (or_default (req_userAgent rd) ''Unknown'') \<le> 1000"
    and "length (or_default (req_referer rd) ''Direct'') \<le> 1000"
  shows "unique_index (snd (recordClick lookup s sc rd now))"
    and "findOne_active (snd (recordClick lookup s sc rd now)) sc =
           Some (u\<lparr>totalClicks := totalClicks u + 1, lastClickAt := Some now, updatedAt := now\<rparr>)"
    and "length (clicks (snd (recordClick lookup s sc rd now))) = Suc (length (clicks s))"
proof -
  note r = recordClick_success [OF assms(2-7), of lookup]
  have u: "shortcode u = js_trim sc" "isActive u"
    using assms(2) by (auto simp: findOne_active_def find_Some_iff)
  show "unique_index (snd (recordClick lookup s sc rd now))"
    using assms(1) by (simp add: r unique_index_def update_doc_map)
  show "findOne_active (snd (recordClick lookup s sc rd now)) sc =
           Some (u\<lparr>totalClicks := totalClicks u + 1, lastClickAt := Some now, updatedAt := now\<rparr>)"
    using assms(1,2) u
      find_active_update [of "urls s" "js_trim sc" u
        "\<lambda>d. d\<lparr>totalClicks := totalClicks u + 1, lastClickAt := Some now, updatedAt := now\<rparr>"]
    by (simp add: r unique_index_def findOne_active_def)
  show "length (clicks (snd (recordClick lookup s sc rd now))) = Suc (length (clicks s))"
    by (simp add: r)
qed

text \<open>Three steps of an invocation in a row are one call of \<^verbatim>\<open>recordClick\<close>.\<close>

lemma recordClick_three_steps:
  "(case recordClick_step lookup sc rd now s AtFindOne of
      (s1, p1) \<Rightarrow> (case recordClick_step lookup sc rd now s1 p1 of
         (s2, p2) \<Rightarrow> (case recordClick_step lookup sc rd now s2 p2 of
            (s3, p3) \<Rightarrow> (p3, s3)))) =
   (Finished (fst (recordClick lookup s sc rd now)), snd (recordClick lookup s sc rd now))"
  by (simp add: recordClick_step_def recordClick_def getUrlByShortcode_def
      split: option.splits sum.splits)

text \<open>
  Claim C1, as amended. \<^verbatim>\<open>incrementClicks\<close> adds one to the copy of the document that
  the invocation read and writes the result back, so the counter is exact for
  invocations that do not overlap: after \<open>N\<close> calls of \<^verbatim>\<open>recordClick\<close> one after the
  other on an active link, each before its expiry and each with a click that passes the
  schema validators, the counter is its initial value plus \<open>N\<close>, \<open>N\<close> clicks are stored
  and every call returned the target.
\<close>

theorem recordClicks_sequential:
  assumes "unique_index s" and "findOne_active s sc = Some u" and "sc \<noteq> []"
    and "\<forall>(rd, now) \<in> set reqs.
           now \<le> expiresAt u \<and> truthy (req_ip rd) \<and>
           length (or_default (req_userAgent rd) ''Unknown'') \<le> 1000 \<and>
           length (or_default (req_referer rd) ''Direct'') \<le> 1000"
  shows "fst (recordClicks lookup s sc reqs) =
           replicate (length reqs) (Inr (Some (originalUrl u))) \<and>
         map_option totalClicks (findOne_active (snd (recordClicks lookup s sc reqs)) sc) =
           Some (totalClicks u + int (length reqs)) \<and>
         length (clicks (snd (recordClicks lookup s sc reqs))) = length (clicks s) + length reqs"
  using assms
proof (induction reqs arbitrary: s u)
  case Nil
  then show ?case by simp
next
  case (Cons r reqs)
  obtain rd now where r: "r = (rd, now)" by (cases r)
  define u' where
    "u' = u\<lparr>totalClicks := totalClicks u + 1, lastClickAt := Some now, updatedAt := now\<rparr>"
  define s1 where "s1 = snd (recordClick lookup s sc rd now)"
  from Cons.prems(4) r have ok: "\<not> isExpired now u" "truthy (req_ip rd)"
    "length (or_default (req_userAgent rd) ''Unknown'') \<le> 1000"
    "length (or_default (req_referer rd) ''Direct'') \<le> 1000"
    by (auto simp: isExpired_def)
  have res: "recordClick lookup s sc rd now = (Inr (Some (originalUrl u)), s1)"
    using recordClick_success [OF Cons.prems(2) ok(1) Cons.prems(3) ok(2-4), of lookup]
    by (simp add: s1_def)
  have st: "unique_index s1" "findOne_active s1 sc = Some u'"
    "length (clicks s1) = Suc (length (clicks s))"
    using recordClick_success_state [OF Cons.prems(1,2) ok(1) Cons.prems(3) ok(2-4), of lookup]
    by (simp_all add: s1_def u'_def)
  have rest: "\<forall>(rd, now) \<in> set reqs.
           now \<le> expiresAt u' \<and> truthy (req_ip rd) \<and>
           length (or_default (req_userAgent rd) ''Unknown'') \<le> 1000 \<and>
           length (or_default (req_referer rd) ''Direct'') \<le> 1000"
    using Cons.prems(4) by (simp add: u'_def)
  from Cons.IH [OF st(1,2) Cons.prems(3) rest] st(3)
  show ?case
    by (cases "recordClicks lookup s1 sc reqs") (auto simp: r res u'_def)
qed

theorem recordClicks_sequential_witness:
  "map_option totalClicks
     (findOne_active (snd (recordClicks no_geo example_store ''abc''
        [(example_request, 1000), (example_request, 1001)])) ''abc'') = Some 2 \<and>
   fst (recordClicks no_geo example_store ''abc''
        [(example_request, 1000), (example_request, 1001)]) =
     [Inr (Some ''https://example.com''), Inr (Some ''https://example.com'')]"
proof -
  have u: "unique_index example_store"
    by (simp add: unique_index_def example_store_def)
  have f: "findOne_active example_store ''abc'' = Some example_link"
    by code_simp
  have n: "''abc'' \<noteq> []" by simp
  have a: "\<forall>(rd, now) \<in> set [(example_request, 1000), (example_request, 1001)].
           now \<le> expiresAt example_link \<and> truthy (req_ip rd) \<and>
           length (or_default (req_userAgent rd) ''Unknown'') \<le> 1000 \<and>
           length (or_default (req_referer rd) ''Direct'') \<le> 1000"
    by (simp add: example_link_def example_request_def truthy_def or_default_def)
  from recordClicks_sequential [OF u f n a, of no_geo] show ?thesis
    by (simp add: example_link_def numeral_2_eq_2)
qed

text \<open>
  Two invocations on the same active link whose steps alternate: both read the counter
  0 before either writes, both return the target, two clicks are stored, and the
  counter ends at 1.
\<close>

theorem recordClick_lost_update:
  "map totalClicks (urls example_store) = [0] \<and>
   map inv_position
     (snd (run_schedule no_geo ''abc'' [0, 1, 0, 1, 0, 1] (example_store, two_invocations))) =
     [Finished (Inr (Some ''https://example.com'')),
      Finished (Inr (Some ''https://example.com''))] \<and>
   length (clicks
     (fst (run_schedule no_geo ''abc'' [0, 1, 0, 1, 0, 1] (example_store, two_invocations)))) = 2 \<and>
   map totalClicks (urls
     (fst (run_schedule no_geo ''abc'' [0, 1, 0, 1, 0, 1] (example_store, two_invocations)))) = [1]"
  by code_simp

text \<open>
  What \<^verbatim>\<open>parseRequestData\<close> puts into a click: the referer \<^verbatim>\<open>Direct\<close> when the request
  has none; country \<^verbatim>\<open>Local\<close> and city \<^verbatim>\<open>Development\<close> for an address that is absent,
  \<^verbatim>\<open>127.0.0.1\<close> or \<^verbatim>\<open>::1\<close>; a location without fields when the resolver is asked and
  finds nothing, in which case the click of a valid request is stored all the same.
\<close>

lemma parseRequestData_click:
  "(\<not> truthy (req_referer rd) \<longrightarrow> referer (parseRequestData lookup sc rd) = ''Direct'') \<and>
   (\<not> truthy (req_ip rd) \<or> req_ip rd = Some ''127.0.0.1'' \<or> req_ip rd = Some ''::1'' \<longrightarrow>
      location (parseRequestData lookup sc rd) =
        empty_location\<lparr>country := Some ''Local'', city := Some ''Development''\<rparr>) \<and>
   (req_ip rd = Some a \<and> a \<noteq> [] \<and> a \<noteq> ''127.0.0.1'' \<and> a \<noteq> ''::1'' \<and> lookup a = None \<longrightarrow>
      location (parseRequestData lookup sc rd) = empty_location) \<and>
   (findOne_active s sc = Some u \<and> \<not> isExpired now u \<and> sc \<noteq> [] \<and> truthy (req_ip rd) \<and>
    length (or_default (req_userAgent rd) ''Unknown'') \<le> 1000 \<and>
    length (or_default (req_referer rd) ''Direct'') \<le> 1000 \<longrightarrow>
      fst (recordClick lookup s sc rd now) = Inr (Some (originalUrl u)) \<and>
      clicks (snd (recordClick lookup s sc rd now)) =
        clicks s @ [new_Click (parseRequestData lookup sc rd) now])"
proof (intro conjI impI)
  assume "\<not> truthy (req_referer rd)"
  then show "referer (parseRequestData lookup sc rd) = ''Direct''"
    by (auto simp: parseRequestData_def Let_def truthy_def or_default_def split: option.splits)
next
  assume "\<not> truthy (req_ip rd) \<or> req_ip rd = Some ''127.0.0.1'' \<or> req_ip rd = Some ''::1''"
  then show "location (parseRequestData lookup sc rd) =
        empty_location\<lparr>country := Some ''Local'', city := Some ''Development''\<rparr>"
    by (auto simp: parseRequestData_def Let_def)
next
  assume "req_ip rd = Some a \<and> a \<noteq> [] \<and> a \<noteq> ''127.0.0.1'' \<and> a \<noteq> ''::1'' \<and> lookup a = None"
  then show "location (parseRequestData lookup sc rd) = empty_location"
    by (simp add: parseRequestData_def Let_def truthy_def or_default_def)
next
  assume h: "findOne_active s sc = Some u \<and> \<not> isExpired now u \<and> sc \<noteq> [] \<and> truthy (req_ip rd) \<and>
    length (or_default (req_userAgent rd) ''Unknown'') \<le> 1000 \<and>
    length (or_default (req_referer rd) ''Direct'') \<le> 1000"
  then have "recordClick lookup s sc rd now =
           (Inr (Some (originalUrl u)),
            s\<lparr>clicks := clicks s @ [new_Click (parseRequestData lookup sc rd) now],
              urls := update_doc (js_trim sc)
                (\<lambda>d. d\<lparr>totalClicks := totalClicks u + 1, lastClickAt := Some now,
                       updatedAt := now\<rparr>) (urls s)\<rparr>)"
    by (intro recordClick_success) simp_all
  then show "fst (recordClick lookup s sc rd now) = Inr (Some (originalUrl u))"
    and "clicks (snd (recordClick lookup s sc rd now)) =
        clicks s @ [new_Click (parseRequestData lookup sc rd) now]"
    by simp_all
qed

text \<open>
  Claim C6 says that a loopback address gives the \<^verbatim>\<open>Local Development\<close> location. The
  helper \<^verbatim>\<open>getLocationFromIP\<close> does so for \<^verbatim>\<open>127.0.0.1\<close>, \<^verbatim>\<open>::1\<close> and
  \<^verbatim>\<open>::ffff:127.0.0.1\<close>; \<^verbatim>\<open>parseRequestData\<close>, which writes the click, does so for the
  first two only: for \<^verbatim>\<open>::ffff:127.0.0.1\<close> it asks the resolver, and the click is stored
  with a location in which no field is set.
\<close>

theorem parseRequestData_mapped_loopback:
  "getLocationFromIP no_geo ''::ffff:127.0.0.1'' = ''Local Development'' \<and>
   location (parseRequestData no_geo ''abc'' (loopback_request\<lparr>req_ip := Some ''::1''\<rparr>)) =
     \<lparr>country = Some ''Local'', region = None, city = Some ''Development'', timezone = None,
      coordinates = None\<rparr> \<and>
   fst (recordClick no_geo example_store ''abc'' loopback_request 1000) =
     Inr (Some ''https://example.com'') \<and>
   map ip (clicks (snd (recordClick no_geo example_store ''abc'' loopback_request 1000))) =
     [Some ''::ffff:127.0.0.1''] \<and>
   map referer (clicks (snd (recordClick no_geo example_store ''abc'' loopback_request 1000))) =
     [''Direct''] \<and>
   map location (clicks (snd (recordClick no_geo example_store ''abc'' loopback_request 1000))) =
     [\<lparr>country = None, region = None, city = None, timezone = None, coordinates = None\<rparr>]"
  by code_simp

section \<open>Properties of the expiry sweep and of the analytics queries\<close>

lemma cleanupExpired_urls:
  "urls (snd (cleanupExpired s now)) =
     map (\<lambda>d. if expiresAt d < now then d\<lparr>isActive := False, updatedAt := now\<rparr> else d) (urls s)"
  by (simp add: cleanupExpired_def)

text \<open>
  Claim C8. At a fixed time a second run of \<^verbatim>\<open>cleanupExpired\<close> changes nothing, so the
  active links after two runs are those after one; after a run a link is active
  exactly when it was active and its expiry has not passed; no link and no click is
  deleted, and of a link only the active flag (with the \<^verbatim>\<open>updatedAt\<close> stamp) changes.
\<close>

theorem cleanupExpired_idempotent:
  "snd (cleanupExpired (snd (cleanupExpired s now)) now) = snd (cleanupExpired s now) \<and>
   findActive (snd (cleanupExpired (snd (cleanupExpired s now)) now)) t =
     findActive (snd (cleanupExpired s now)) t \<and>
   map isActive (urls (snd (cleanupExpired s now))) =
     map (\<lambda>d. isActive d \<and> \<not> expiresAt d < now) (urls s) \<and>
   map (\<lambda>d. d\<lparr>isActive := True, updatedAt := 0\<rparr>) (urls (snd (cleanupExpired s now))) =
     map (\<lambda>d. d\<lparr>isActive := True, updatedAt := 0\<rparr>) (urls s) \<and>
   clicks (snd (cleanupExpired s now)) = clicks s"
proof -
  have i: "snd (cleanupExpired (snd (cleanupExpired s now)) now) = snd (cleanupExpired s now)"
    by (simp add: cleanupExpired_def)
  have a: "map isActive (urls (snd (cleanupExpired s now))) =
     map (\<lambda>d. isActive d \<and> \<not> expiresAt d < now) (urls s)"
    by (simp add: cleanupExpired_def)
  have o: "map (\<lambda>d. d\<lparr>isActive := True, updatedAt := 0\<rparr>) (urls (snd (cleanupExpired s now))) =
     map (\<lambda>d. d\<lparr>isActive := True, updatedAt := 0\<rparr>) (urls s)"
    by (simp add: cleanupExpired_def)
  have c: "clicks (snd (cleanupExpired s now)) = clicks s"
    by (simp add: cleanupExpired_def)
  from i a o c show ?thesis by simp
qed

theorem cleanupExpired_idempotent_witness:
  "map isActive (urls (snd (cleanupExpired mixed_store 1000))) = [True, False, False] \<and>
   map isActive (urls (snd (cleanupExpired (snd (cleanupExpired mixed_store 1000)) 1000))) =
     [True, False, False] \<and>
   fst (cleanupExpired mixed_store 1000) = 1 \<and>
   length (clicks (snd (cleanupExpired mixed_store 1000))) = 4"
  using cleanupExpired_idempotent [of mixed_store 1000 0]
  by (simp add: mixed_store_def example_link_def expired_link_def inactive_link_def
      cleanupExpired_def)

lemma sorted_desc_sort_key:
  "sorted_wrt (\<lambda>a b. timestamp a \<ge> timestamp b) (sort_key (\<lambda>c. - timestamp c) cs)"
proof -
  have "sorted (map (\<lambda>c. - timestamp c) (sort_key (\<lambda>c. - timestamp c) cs))"
    by (rule sorted_sort_key)
  then show ?thesis
    by (simp add: sorted_wrt_map)
qed

lemma sorted_desc_limit:
  "sorted_wrt (\<lambda>a b. timestamp a \<ge> timestamp b) cs
     \<Longrightarrow> sorted_wrt (\<lambda>a b. timestamp a \<ge> timestamp b) (mongo_limit n cs)"
  by (simp add: mongo_limit_def sorted_wrt_take)

text \<open>
  Claim C9. For a positive limit, \<^verbatim>\<open>getClicksByShortcode\<close> returns as many clicks of the
  shortcode as there are, up to the limit, in descending order of timestamp, none with
  the \<^verbatim>\<open>ip\<close> field; \<^verbatim>\<open>getUrlStats\<close> asks for 100.
\<close>

theorem getClicksByShortcode_recent:
  assumes "0 < limit"
  shows "length (getClicksByShortcode s sc limit) = min limit (length (clicks_of s sc)) \<and>
         length (getClicksByShortcode s sc limit) \<le> limit \<and>
         sorted_wrt (\<lambda>a b. timestamp a \<ge> timestamp b) (getClicksByShortcode s sc limit) \<and>
         list_all (\<lambda>c. ip c = None \<and> click_shortcode c = sc) (getClicksByShortcode s sc limit) \<and>
         (findOne s sc = Some u \<longrightarrow>
            map_option recentClicks (getUrlStats s sc now) = Some (getClicksByShortcode s sc 100))"
proof -
  have len: "length (getClicksByShortcode s sc limit) = min limit (length (clicks_of s sc))"
    using assms by (simp add: getClicksByShortcode_def mongo_limit_def min.commute)
  have srt: "sorted_wrt (\<lambda>a b. timestamp a \<ge> timestamp b) (getClicksByShortcode s sc limit)"
    using sorted_desc_limit [OF sorted_desc_sort_key, of limit "clicks_of s sc"]
    by (simp add: getClicksByShortcode_def sorted_wrt_map select_minus_ip_def)
  have "set (mongo_limit limit (sort_key (\<lambda>c. - timestamp c) (clicks_of s sc)))
          \<subseteq> set (clicks_of s sc)"
    using set_take_subset [of limit "sort_key (\<lambda>c. - timestamp c) (clicks_of s sc)"]
    by (auto simp: mongo_limit_def)
  then have noip: "list_all (\<lambda>c. ip c = None \<and> click_shortcode c = sc)
                     (getClicksByShortcode s sc limit)"
    by (auto simp: getClicksByShortcode_def list_all_iff select_minus_ip_def clicks_of_def)
  have st: "findOne s sc = Some u \<longrightarrow>
            map_option recentClicks (getUrlStats s sc now) = Some (getClicksByShortcode s sc 100)"
    by (simp add: getUrlStats_def)
  from len srt noip st show ?thesis by simp
qed

theorem getClicksByShortcode_recent_witness:
  "map timestamp (getClicksByShortcode mixed_store ''abc'' 2) = [30, 20] \<and>
   map ip (getClicksByShortcode mixed_store ''abc'' 2) = [None, None] \<and>
   map ip (clicks_of mixed_store ''abc'') =
     [Some ''203.0.113.9'', Some ''203.0.113.9'', Some ''203.0.113.9'']"
proof -
  have l: "(0::nat) < 2" by simp
  have n: "length (clicks_of mixed_store ''abc'') = 3"
    by code_simp
  have v: "map timestamp (getClicksByShortcode mixed_store ''abc'' 2) = [30, 20]"
    by code_simp
  have i: "map ip (clicks_of mixed_store ''abc'') =
     [Some ''203.0.113.9'', Some ''203.0.113.9'', Some ''203.0.113.9'']"
    by code_simp
  from getClicksByShortcode_recent [OF l, of mixed_store "''abc''" example_link 0] n
  have "length (getClicksByShortcode mixed_store ''abc'' 2) = 2"
    and a: "list_all (\<lambda>c. ip c = None \<and> click_shortcode c = ''abc'')
              (getClicksByShortcode mixed_store ''abc'' 2)"
    by simp_all
  then obtain x y where "getClicksByShortcode mixed_store ''abc'' 2 = [x, y]"
    by (auto simp: length_Suc_conv numeral_2_eq_2)
  with a have "map ip (getClicksByShortcode mixed_store ''abc'' 2) = [None, None]"
    by simp
  with v i show ?thesis by simp
qed

text \<open>
  Claim C10. \<^verbatim>\<open>getUrlStats\<close> returns \<^verbatim>\<open>null\<close> only when no link with the shortcode is
  stored (the query looks for the shortcode with its surrounding white space removed,
  and stored shortcodes are trimmed); for a stored link it returns the statistics
  whatever its active flag and its expiry are, also when the redirect path,
  \<^verbatim>\<open>recordClick\<close>, answers not-found for it.
\<close>

theorem getUrlStats_any_link:
  "(getUrlStats s sc now = None \<longleftrightarrow> \<not> list_ex (\<lambda>d. shortcode d = js_trim sc) (urls s)) \<and>
   (trimmed_shortcodes s \<and> getUrlStats s sc now = None \<longrightarrow>
      \<not> list_ex (\<lambda>d. shortcode d = sc) (urls s)) \<and>
   (findOne s sc = Some u \<longrightarrow>
      getUrlStats s sc now =
        Some \<lparr>st_originalUrl = originalUrl u, st_shortcode = js_trim sc,
              st_createdAt = createdAt u, st_expiresAt = expiresAt u,
              st_isActive = isActive u, st_isExpired = isExpired now u,
              st_totalClicks = totalClicks u, st_lastClickAt = lastClickAt u,
              st_tags = tags u, st_description = description u,
              recentClicks = getClicksByShortcode s sc 100,
              locationStats = getLocationStats s sc,
              deviceStats = getDeviceStats s sc,
              refererStats = getRefererStats s sc\<rparr>) \<and>
   (unique_index s \<and> findOne s sc = Some u \<and> (\<not> isActive u \<or> isExpired now u) \<longrightarrow>
      getUrlStats s sc now \<noteq> None \<and> fst (recordClick lookup s sc rd now) = Inr None)"
proof (intro conjI impI)
  have "getUrlStats s sc now = None \<longleftrightarrow> findOne s sc = None"
    by (simp add: getUrlStats_def split: option.splits)
  also have "\<dots> \<longleftrightarrow> \<not> list_ex (\<lambda>d. shortcode d = js_trim sc) (urls s)"
    by (auto simp: findOne_def find_None_iff list_ex_iff)
  finally show n: "getUrlStats s sc now = None \<longleftrightarrow>
                     \<not> list_ex (\<lambda>d. shortcode d = js_trim sc) (urls s)" .
  {
    assume h: "trimmed_shortcodes s \<and> getUrlStats s sc now = None"
    show "\<not> list_ex (\<lambda>d. shortcode d = sc) (urls s)"
    proof
      assume "list_ex (\<lambda>d. shortcode d = sc) (urls s)"
      then obtain d where d: "d \<in> set (urls s)" "shortcode d = sc"
        by (auto simp: list_ex_iff)
      with h have "js_trim sc = sc"
        by (auto simp: trimmed_shortcodes_def list_all_iff)
      with d have "list_ex (\<lambda>d. shortcode d = js_trim sc) (urls s)"
        by (auto simp: list_ex_iff)
      with n h show False by simp
    qed
  }
next
  assume "findOne s sc = Some u"
  moreover from this have "shortcode u = js_trim sc"
    by (auto simp: findOne_def find_Some_iff)
  ultimately show "getUrlStats s sc now =
        Some \<lparr>st_originalUrl = originalUrl u, st_shortcode = js_trim sc,
              st_createdAt = createdAt u, st_expiresAt = expiresAt u,
              st_isActive = isActive u, st_isExpired = isExpired now u,
              st_totalClicks = totalClicks u, st_lastClickAt = lastClickAt u,
              st_tags = tags u, st_description = description u,
              recentClicks = getClicksByShortcode s sc 100,
              locationStats = getLocationStats s sc,
              deviceStats = getDeviceStats s sc,
              refererStats = getRefererStats s sc\<rparr>"
    by (simp add: getUrlStats_def)
next
  assume h: "unique_index s \<and> findOne s sc = Some u \<and> (\<not> isActive u \<or> isExpired now u)"
  then show "getUrlStats s sc now \<noteq> None"
    by (simp add: getUrlStats_def)
  from h have "findOne_active s sc = (if isActive u then Some u else None)"
    using find_unique_active [of "urls s" "js_trim sc" u]
    by (simp add: unique_index_def findOne_def findOne_active_def)
  with h show "fst (recordClick lookup s sc rd now) = Inr None"
    by (auto simp: recordClick_def getUrlByShortcode_def)
qed

theorem getUrlStats_any_link_witness:
  "map_option st_totalClicks (getUrlStats mixed_store ''off'' 1000) = Some 3 \<and>
   map_option st_isActive (getUrlStats mixed_store ''off'' 1000) = Some False \<and>
   map_option (map timestamp \<circ> recentClicks) (getUrlStats mixed_store ''off'' 1000) = Some [20] \<and>
   fst (recordClick no_geo mixed_store ''off'' example_request 1000) = Inr None \<and>
   map_option st_isExpired (getUrlStats mixed_store ''old'' 1000) = Some True \<and>
   fst (recordClick no_geo mixed_store ''old'' example_request 1000) = Inr None \<and>
   getUrlStats mixed_store ''nil'' 1000 = None"
proof -
  have u: "unique_index mixed_store"
    by (simp add: unique_index_def mixed_store_def example_link_def expired_link_def
        inactive_link_def)
  have 1: "findOne mixed_store ''off'' = Some inactive_link"
    by code_simp
  have 2: "findOne mixed_store ''old'' = Some expired_link"
    by code_simp
  have 3: "\<not> isActive inactive_link \<or> isExpired 1000 inactive_link"
    by (simp add: inactive_link_def)
  have 4: "\<not> isActive expired_link \<or> isExpired 1000 expired_link"
    by (simp add: expired_link_def isExpired_def)
  have 5: "\<not> list_ex (\<lambda>d. shortcode d = js_trim ''nil'') (urls mixed_store)"
    by code_simp
  have 6: "map timestamp (getClicksByShortcode mixed_store ''off'' 100) = [20]"
    by code_simp
  have 7: "trimmed_shortcodes mixed_store"
    by code_simp
  from getUrlStats_any_link [of mixed_store "''off''" 1000 inactive_link no_geo example_request]
       getUrlStats_any_link [of mixed_store "''old''" 1000 expired_link no_geo example_request]
       getUrlStats_any_link [of mixed_store "''nil''" 1000 expired_link no_geo example_request]
       u 1 2 3 4 5 6 7
  show ?thesis
    by (simp add: inactive_link_def expired_link_def example_link_def isExpired_def)
qed


section \<open>Facts about strings and the generator\<close>

lemma startsWith_iff: "startsWith v p \<longleftrightarrow> (\<exists>r. v = p @ r)"
  by (induction v p rule: startsWith.induct) auto

lemma str_includes_iff: "str_includes v p \<longleftrightarrow> (\<exists>a r. v = a @ p @ r)"
proof (induction v)
  case Nil
  then show ?case by auto
next
  case (Cons c cs)
  show ?case
  proof
    assume "str_includes (c # cs) p"
    then consider "startsWith (c # cs) p" | "str_includes cs p" by auto
    then show "\<exists>a r. c # cs = a @ p @ r"
    proof cases
      case 1
      then obtain r where "c # cs = p @ r" by (auto simp: startsWith_iff)
      then have "c # cs = [] @ p @ r" by simp
      then show ?thesis by blast
    next
      case 2
      with Cons obtain a r where "cs = a @ p @ r" by auto
      then have "c # cs = (c # a) @ p @ r" by simp
      then show ?thesis by blast
    qed
  next
    assume "\<exists>a r. c # cs = a @ p @ r"
    then obtain a r where e: "c # cs = a @ p @ r" by auto
    show "str_includes (c # cs) p"
    proof (cases a)
      case Nil
      with e have "startsWith (c # cs) p" by (auto simp: startsWith_iff)
      then show ?thesis by simp
    next
      case (Cons x a')
      with e have "cs = a' @ p @ r" by simp
      with Cons.IH have "str_includes cs p" by blast
      then show ?thesis by simp
    qed
  qed
qed

lemma str_includes_trans:
  assumes "str_includes v p" and "str_includes p q"
  shows "str_includes v q"
proof -
  from assms obtain a r a' r' where "v = a @ p @ r" "p = a' @ q @ r'"
    by (auto simp: str_includes_iff)
  then have "v = (a @ a') @ q @ (r' @ r)" by simp
  then show ?thesis unfolding str_includes_iff by blast
qed

lemma chars62_no_space: "c \<in> set chars62 \<Longrightarrow> c \<noteq> CHR '' '' \<and> \<not> is_space c"
  by (auto simp: chars62_def upper_letters_def lower_letters_def digit_chars_def is_space_def)

lemma no_y_ex_in_key:
  "list_all (\<lambda>c. c \<in> set chars62) sc
     \<Longrightarrow> \<not> str_includes (sc @ [CHR 0x22] @ '' }'') ''y ex''"
proof (induction sc)
  case Nil
  then show ?case by simp
next
  case (Cons c cs)
  have "\<not> startsWith (cs @ [CHR 0x22] @ '' }'') '' ex''"
  proof (cases cs)
    case Nil
    then show ?thesis by simp
  next
    case (Cons x xs)
    with Cons.prems have "x \<noteq> CHR '' ''" using chars62_no_space by simp
    with Cons show ?thesis by simp
  qed
  with Cons show ?case by simp
qed

lemma duplicate_key_message_not_exists:
  assumes "list_all (\<lambda>c. c \<in> set chars62) sc"
  shows "\<not> str_includes (''Failed to create short URL: '' @ message (DuplicateKey sc))
           ''already exists''"
proof
  assume "str_includes (''Failed to create short URL: '' @ message (DuplicateKey sc))
           ''already exists''"
  moreover have "str_includes ''already exists'' ''y ex''" by simp
  ultimately have "str_includes (''Failed to create short URL: '' @ message (DuplicateKey sc))
           ''y ex''"
    by (rule str_includes_trans)
  then have "str_includes (sc @ [CHR 0x22] @ '' }'') ''y ex''"
    by simp
  with no_y_ex_in_key [OF assms] show False by simp
qed

lemma js_trim_alnum: "alnum_regex v \<Longrightarrow> js_trim v = v"
proof -
  assume "alnum_regex v"
  then have a: "\<forall>c \<in> set v. \<not> is_space c"
    using chars62_no_space by (auto simp: alnum_regex_def list_all_iff)
  have d: "\<And>w. \<forall>c \<in> set w. \<not> is_space c \<Longrightarrow> dropWhile is_space w = w"
    by (case_tac w) auto
  from a have "dropWhile is_space v = v" by (rule d)
  moreover from a have "dropWhile is_space (rev v) = rev v" by (intro d) simp
  ultimately show ?thesis by (simp add: js_trim_def)
qed

lemma charAt_random:
  assumes "0 \<le> (r :: rat)" and "r < 1"
  shows "\<exists>c \<in> set chars62. charAt chars62 \<lfloor>r * of_nat (length chars62)\<rfloor> = [c]"
proof -
  have l: "length chars62 = 62"
    by (simp add: chars62_def upper_letters_def lower_letters_def digit_chars_def)
  have "0 \<le> r * 62" using assms(1) by simp
  then have lo: "0 \<le> \<lfloor>r * 62\<rfloor>" by simp
  have "r * 62 < 62" using assms(2) by simp
  then have hi: "\<lfloor>r * 62\<rfloor> < 62" by (simp add: floor_less_iff)
  from lo hi have "nat \<lfloor>r * 62\<rfloor> < 62" by linarith
  then have n: "nat \<lfloor>r * 62\<rfloor> < length chars62" by (simp add: l)
  then have "chars62 ! nat \<lfloor>r * 62\<rfloor> \<in> set chars62" by (rule nth_mem)
  moreover from lo hi have "charAt chars62 \<lfloor>r * of_nat (length chars62)\<rfloor> =
                             [chars62 ! nat \<lfloor>r * 62\<rfloor>]"
    by (simp add: charAt_def l)
  ultimately show ?thesis by blast
qed

lemma generateRandomShortcode_alnum:
  assumes "\<forall>i. 0 \<le> rnd i \<and> rnd i < 1"
  shows "length (generateRandomShortcode rnd k) = 7 \<and>
         list_all (\<lambda>c. c \<in> set chars62) (generateRandomShortcode rnd k)"
proof -
  define pick where
    "pick = (\<lambda>i. charAt chars62 \<lfloor>rnd (k + i) * of_nat (length chars62)\<rfloor>)"
  have p: "\<exists>c \<in> set chars62. pick i = [c]" for i
    unfolding pick_def using assms by (intro charAt_random) auto
  have g: "generateRandomShortcode rnd k = concat (map pick [0..<7])"
    by (simp add: generateRandomShortcode_def pick_def)
  have "length (concat (map pick xs)) = length xs \<and>
        list_all (\<lambda>c. c \<in> set chars62) (concat (map pick xs))" for xs
  proof (induction xs)
    case Nil
    then show ?case by simp
  next
    case (Cons i xs)
    from p [of i] obtain c where "c \<in> set chars62" "pick i = [c]" by blast
    with Cons show ?case by simp
  qed
  from this [of "[0..<7]"] show ?thesis by (simp add: g)
qed

lemma generate_loop_Some:
  assumes "generate_loop rnd s k = Some sc"
  shows "(\<exists>k'. sc = generateRandomShortcode rnd k') \<and> findOne s sc = None"
proof (rule generate_loop.raw_induct
    [where P = "\<lambda>rnd s k sc. (\<exists>k'. sc = generateRandomShortcode rnd k') \<and> findOne s sc = None"
       and rnd = rnd and s = s and k = k and y = sc])
  fix f :: "(nat \<Rightarrow> rat) \<Rightarrow> store \<Rightarrow> nat \<Rightarrow> string option" and rnd s k y
  assume IH: "\<And>rnd s k y. f rnd s k = Some y
                \<Longrightarrow> (\<exists>k'. y = generateRandomShortcode rnd k') \<and> findOne s y = None"
    and eq: "(if findOne s (generateRandomShortcode rnd k) \<noteq> None
              then f rnd s (k + 7) else Some (generateRandomShortcode rnd k)) = Some y"
  show "(\<exists>k'. y = generateRandomShortcode rnd k') \<and> findOne s y = None"
  proof (cases "findOne s (generateRandomShortcode rnd k) = None")
    case True
    with eq show ?thesis by auto
  next
    case False
    with eq have "f rnd s (k + 7) = Some y" by simp
    then show ?thesis by (rule IH)
  qed
next
  show "generate_loop rnd s k = Some sc" by fact
qed


section \<open>Properties of link creation\<close>

lemma find_append_None: "find P xs = None \<Longrightarrow> find P (xs @ ys) = find P ys"
  by (induction xs) (auto split: if_splits)

lemma expiry_date_int:
  assumes "0 \<le> now" and "now < 4503599627370496" and "1 \<le> n" and "n \<le> 525600"
  shows "expiry_date dd now (of_int n) = Some (now + n * 60 * 1000)"
proof -
  have h: "half_minutes (of_int n)"
    by (simp add: half_minutes_def)
  have e: "of_int now + (of_int n :: rat) * 60 * 1000 = of_int (now + n * 60 * 1000)"
    by simp
  have p: "(of_int n :: rat) * 60 * 1000 = of_int (n * 60 * 1000)"
    by simp
  have a: "\<bar>of_int k :: rat\<bar> < of_int m \<longleftrightarrow> \<bar>k\<bar> < m" for k m
    by (simp only: of_int_less_iff flip: of_int_abs)
  have l: "\<bar>of_int k :: rat\<bar> \<le> of_int m \<longleftrightarrow> \<bar>k\<bar> \<le> m" for k m
    by (simp only: of_int_le_iff flip: of_int_abs)
  have 1: "exact_double (of_int now)"
    using assms(1,2) a [of now 9007199254740992] by (simp add: exact_double_def)
  have 2: "exact_double (of_int n * 60 * 1000)"
    using assms(3,4) a [of "n * 60 * 1000" 9007199254740992]
    unfolding exact_double_def p by simp
  have 3: "exact_double (of_int now + of_int n * 60 * 1000)"
    using assms a [of "now + n * 60 * 1000" 9007199254740992]
    unfolding exact_double_def e by simp
  have 4: "\<bar>of_int now + (of_int n :: rat) * 60 * 1000\<bar> \<le> 8640000000000000"
    using assms l [of "now + n * 60 * 1000" 8640000000000000]
    unfolding e by simp
  have 5: "\<lfloor>of_int now + (of_int n :: rat) * 60 * 1000\<rfloor> = now + n * 60 * 1000"
    unfolding e by (rule floor_of_int)
  show ?thesis
    unfolding expiry_date_def using h 1 2 3 4 5 by simp
qed

lemma url_errors_Nil:
  "url_errors d = [] \<longleftrightarrow>
     truthy (d_shortcode d) \<and> 3 \<le> length (or_default (d_shortcode d) []) \<and>
     length (or_default (d_shortcode d) []) \<le> 20 \<and> d_originalUrl d \<noteq> [] \<and>
     urlPattern (d_originalUrl d) \<and> d_expiresAt d \<noteq> None \<and>
     (case d_description d of None \<Rightarrow> True | Some t \<Rightarrow> length t \<le> 500)"
  by (auto simp: url_errors_def split: option.splits)

lemma save_url_Inr:
  assumes "save_url rnd s d now = Some (Inr (u, s'))"
  shows "url_errors d = [] \<and>
         (\<exists>t. d_expiresAt d = Some t \<and> insert_url s d t now = Inr (u, s'))"
proof -
  from assms have e: "url_errors d = []"
    by (auto simp: save_url_def split: if_splits)
  then have "truthy (d_shortcode d)" by (simp add: url_errors_Nil)
  then have "pre_save rnd s d = Some d" by (simp add: pre_save_def)
  with assms e show ?thesis
    by (auto simp: save_url_def split: option.splits)
qed

lemma insert_url_Inr:
  assumes "insert_url s d t now = Inr (u, s')"
  shows "u = \<lparr>shortcode = or_default (d_shortcode d) [], originalUrl = d_originalUrl d,
               createdAt = now, updatedAt = now, expiresAt = t, isActive = True,
               totalClicks = 0, lastClickAt = None, tags = d_tags d,
               description = d_description d\<rparr>"
    and "find_by_key s (shortcode u) = None"
    and "s' = s\<lparr>urls := urls s @ [u]\<rparr>"
  using assms by (auto simp: insert_url_def Let_def split: if_splits)

text \<open>What a successful \<^verbatim>\<open>createShortUrl\<close> has done.\<close>

lemma createShortUrl_Inr:
  assumes "createShortUrl e s cd now = Some (Inr r, s')"
  shows "expiry_date (double_date e) now (case cd_validity cd of None \<Rightarrow> 30 | Some v \<Rightarrow> v) =
           Some (r_expiresAt r)"
    and "r_originalUrl r = cd_originalUrl cd"
    and "find_by_key s (r_shortcode r) = None"
    and "\<exists>u. s' = s\<lparr>urls := urls s @ [u]\<rparr> \<and> shortcode u = r_shortcode r \<and>
              originalUrl u = cd_originalUrl cd \<and> expiresAt u = r_expiresAt r \<and> isActive u"
    and "truthy (map_option js_trim (cd_shortcode cd)) \<and>
         r_shortcode r = or_default (map_option js_trim (cd_shortcode cd)) []"
    and "3 \<le> length (r_shortcode r) \<and> length (r_shortcode r) \<le> 20"
proof -
  define x where
    "x = expiry_date (double_date e) now (case cd_validity cd of None \<Rightarrow> 30 | Some v \<Rightarrow> v)"
  define d0 where
    "d0 = \<lparr>d_shortcode = map_option js_trim (cd_shortcode cd),
            d_originalUrl = cd_originalUrl cd, d_expiresAt = x,
            d_tags = map js_trim (cd_tags cd), d_description = cd_description cd\<rparr>"
  from assms(1) obtain u where
    sv: "save_url (random e) s d0 now = Some (Inr (u, s'))"
    and r: "r = \<lparr>r_shortcode = shortcode u, r_originalUrl = originalUrl u,
                 r_shortLink = baseUrl e @ ''/'' @ shortcode u,
                 r_expiresAt = expiresAt u, r_createdAt = createdAt u\<rparr>"
    by (auto simp: createShortUrl_def Let_def d0_def x_def
        split: if_splits option.splits sum.splits prod.splits)
  from save_url_Inr [OF sv] obtain t where
    v: "url_errors d0 = []" and t: "d_expiresAt d0 = Some t"
    and i: "insert_url s d0 t now = Inr (u, s')"
    by blast
  note u = insert_url_Inr [OF i]
  show "expiry_date (double_date e) now (case cd_validity cd of None \<Rightarrow> 30 | Some v \<Rightarrow> v) =
           Some (r_expiresAt r)"
    using u(1) t by (simp add: r d0_def x_def)
  show "r_originalUrl r = cd_originalUrl cd"
    using u(1) by (simp add: r d0_def)
  show "find_by_key s (r_shortcode r) = None"
    using u(2) by (simp add: r)
  show "\<exists>u. s' = s\<lparr>urls := urls s @ [u]\<rparr> \<and> shortcode u = r_shortcode r \<and>
              originalUrl u = cd_originalUrl cd \<and> expiresAt u = r_expiresAt r \<and> isActive u"
    using u(1,3) by (intro exI [of _ u]) (simp add: r d0_def)
  have sc: "r_shortcode r = or_default (d_shortcode d0) []"
    using u(1) by (simp add: r)
  from v have "truthy (d_shortcode d0)" by (simp add: url_errors_Nil)
  then show "truthy (map_option js_trim (cd_shortcode cd)) \<and>
         r_shortcode r = or_default (map_option js_trim (cd_shortcode cd)) []"
    using sc by (simp add: d0_def)
  show "3 \<le> length (r_shortcode r) \<and> length (r_shortcode r) \<le> 20"
    using v by (simp add: url_errors_Nil sc)
qed

text \<open>The handler after its early checks.\<close>

lemma post_shorturls_unfold:
  assumes "early_checks_pass e b"
  shows "post_shorturls e s b now =
     (if validityMinutes b \<le> 0 \<or> validityMinutes b > 525600
      then Some (Failure 400 ''INVALID_VALIDITY'', s)
      else (case createShortUrl e s (handler_data b) now of
              None \<Rightarrow> None
            | Some (Inl msg, s') \<Rightarrow>
                Some (if str_includes msg ''already exists''
                      then Failure 409 ''SHORTCODE_EXISTS''
                      else Failure 500 ''INTERNAL_ERROR'', s')
            | Some (Inr r, s') \<Rightarrow>
                Some (Created (r_shortLink r) (r_expiresAt r) (r_shortcode r), s')))"
  using assms
  by (auto simp: post_shorturls_def early_checks_pass_def validityMinutes_def handler_data_def
      Let_def)

lemma post_shorturls_Created:
  assumes "post_shorturls e s b now = Some (Created link expiry sc, s')"
  shows "early_checks_pass e b"
    and "0 < validityMinutes b \<and> validityMinutes b \<le> 525600"
    and "\<exists>r. createShortUrl e s (handler_data b) now = Some (Inr r, s') \<and>
             r_shortcode r = sc \<and> r_expiresAt r = expiry \<and> r_shortLink r = link"
proof -
  show c: "early_checks_pass e b"
    using assms
    by (auto simp: post_shorturls_def early_checks_pass_def split: if_splits)
  from assms show "0 < validityMinutes b \<and> validityMinutes b \<le> 525600"
    by (auto simp: post_shorturls_unfold [OF c] split: if_splits)
  from assms show "\<exists>r. createShortUrl e s (handler_data b) now = Some (Inr r, s') \<and>
             r_shortcode r = sc \<and> r_expiresAt r = expiry \<and> r_shortLink r = link"
    by (auto simp: post_shorturls_unfold [OF c]
        split: if_splits option.splits sum.splits prod.splits)
qed

text \<open>
  A link created through the handler with a whole number of minutes, the clock being a
  time of day of this era, expires that many minutes after the request.
\<close>

lemma post_shorturls_Created_expiry:
  assumes "post_shorturls e s b now = Some (Created link expiry sc, s')"
    and "validityMinutes b = of_int n" and "0 \<le> now" and "now < 4503599627370496"
  shows "expiry = now + n * 60 * 1000"
proof -
  from post_shorturls_Created(2) [OF assms(1)] assms(2)
  have n: "1 \<le> n" "n \<le> 525600"
    by simp_all
  from post_shorturls_Created(3) [OF assms(1)] obtain r where
    r: "createShortUrl e s (handler_data b) now = Some (Inr r, s')" "r_expiresAt r = expiry"
    by blast
  from createShortUrl_Inr(1) [OF r(1)] assms(2) r(2)
  have "expiry_date (double_date e) now (of_int n) = Some expiry"
    by (simp add: handler_data_def)
  with expiry_date_int [OF assms(3,4) n, of "double_date e"] show ?thesis by simp
qed

text \<open>
  Claim C2, as amended. For a request that passes the checks before the validity check,
  the clock being a time of day of this era: an omitted validity counts as 30 minutes;
  a validity below 0 or above 525600 is answered with 400 \<^verbatim>\<open>INVALID_VALIDITY\<close> and the
  store is untouched; a validity from 1 to 525600, whole or fractional, is not rejected
  as invalid; a link created with a validity that is below 0 or at least 1 has a
  validity from 1 to 525600; and a link created with a whole number of minutes other
  than 0 expires that many minutes after the request.
\<close>

theorem post_shorturls_validity:
  assumes "early_checks_pass e b" and "0 \<le> now" and "now < 4503599627370496"
  shows "(b_validity b = None \<and> post_shorturls e s b now = Some (Created link expiry sc, s')
            \<longrightarrow> expiry = now + 30 * 60 * 1000) \<and>
         (b_validity b = Some v \<and> (v < 0 \<or> 525600 < v)
            \<longrightarrow> post_shorturls e s b now = Some (Failure 400 ''INVALID_VALIDITY'', s)) \<and>
         (b_validity b = Some v \<and> 1 \<le> v \<and> v \<le> 525600
            \<longrightarrow> post_shorturls e s b now \<noteq> Some (Failure 400 ''INVALID_VALIDITY'', s')) \<and>
         (b_validity b = Some v \<and> (v < 0 \<or> 1 \<le> v) \<and>
          post_shorturls e s b now = Some (Created link expiry sc, s')
            \<longrightarrow> 1 \<le> v \<and> v \<le> 525600) \<and>
         (b_validity b = Some (of_int n) \<and> n \<noteq> 0 \<and>
          post_shorturls e s b now = Some (Created link expiry sc, s')
            \<longrightarrow> expiry = now + n * 60 * 1000)"
proof (intro conjI impI)
  assume h: "b_validity b = None \<and> post_shorturls e s b now = Some (Created link expiry sc, s')"
  then have "validityMinutes b = of_int 30"
    by (simp add: validityMinutes_def)
  with h post_shorturls_Created_expiry [of e s b now link expiry sc s' 30] assms(2,3)
  show "expiry = now + 30 * 60 * 1000" by simp
next
  assume "b_validity b = Some v \<and> (v < 0 \<or> 525600 < v)"
  then show "post_shorturls e s b now = Some (Failure 400 ''INVALID_VALIDITY'', s)"
    by (auto simp: post_shorturls_unfold [OF assms(1)] validityMinutes_def)
next
  assume "b_validity b = Some v \<and> 1 \<le> v \<and> v \<le> 525600"
  then show "post_shorturls e s b now \<noteq> Some (Failure 400 ''INVALID_VALIDITY'', s')"
    by (auto simp: post_shorturls_unfold [OF assms(1)] validityMinutes_def
        split: option.splits sum.splits prod.splits)
next
  assume h: "b_validity b = Some v \<and> (v < 0 \<or> 1 \<le> v) \<and>
          post_shorturls e s b now = Some (Created link expiry sc, s')"
  then have "0 < validityMinutes b \<and> validityMinutes b \<le> 525600"
    using post_shorturls_Created(2) by blast
  with h show "1 \<le> v" and "v \<le> 525600"
    by (auto simp: validityMinutes_def split: if_splits)
next
  assume h: "b_validity b = Some (of_int n) \<and> n \<noteq> 0 \<and>
          post_shorturls e s b now = Some (Created link expiry sc, s')"
  then have "validityMinutes b = of_int n"
    by (simp add: validityMinutes_def)
  with h post_shorturls_Created_expiry [of e s b now link expiry sc s' n] assms(2,3)
  show "expiry = now + n * 60 * 1000" by simp
qed

theorem post_shorturls_validity_witness:
  "post_shorturls example_env empty_store (example_body None (Some ''abc'')) 5 =
     Some (Created ''http://localhost:8080/abc'' 1800005 ''abc'',
           \<lparr>urls = [example_link\<lparr>createdAt := 5, updatedAt := 5, expiresAt := 1800005\<rparr>],
            clicks = []\<rparr>) \<and>
   post_shorturls example_env empty_store (example_body (Some 525601) (Some ''abc'')) 5 =
     Some (Failure 400 ''INVALID_VALIDITY'', empty_store) \<and>
   post_shorturls example_env empty_store (example_body (Some (- 1)) (Some ''abc'')) 5 =
     Some (Failure 400 ''INVALID_VALIDITY'', empty_store) \<and>
   post_shorturls example_env empty_store (example_body (Some 525600) (Some ''abc'')) 5 =
     Some (Created ''http://localhost:8080/abc'' 31536000005 ''abc'',
           \<lparr>urls = [example_link\<lparr>createdAt := 5, updatedAt := 5, expiresAt := 31536000005\<rparr>],
            clicks = []\<rparr>)"
proof -
  have c: "early_checks_pass example_env (example_body v (Some ''abc''))" for v
    by (simp add: early_checks_pass_def example_env_def example_body_def truthy_def
        or_default_def alnum_regex_def chars62_def upper_letters_def lower_letters_def
        digit_chars_def)
  have t: "(0::int) \<le> 5" "(5::int) < 4503599627370496" by simp_all
  have 1: "post_shorturls example_env empty_store (example_body None (Some ''abc'')) 5 =
     Some (Created ''http://localhost:8080/abc'' 1800005 ''abc'',
           \<lparr>urls = [example_link\<lparr>createdAt := 5, updatedAt := 5, expiresAt := 1800005\<rparr>],
            clicks = []\<rparr>)"
    by code_simp
  have 4: "post_shorturls example_env empty_store (example_body (Some 525600) (Some ''abc'')) 5 =
     Some (Created ''http://localhost:8080/abc'' 31536000005 ''abc'',
           \<lparr>urls = [example_link\<lparr>createdAt := 5, updatedAt := 5, expiresAt := 31536000005\<rparr>],
            clicks = []\<rparr>)"
    by code_simp
  from post_shorturls_validity
         [OF c [of "Some 525601"] t, where s = empty_store and v = 525601]
  have 2: "post_shorturls example_env empty_store (example_body (Some 525601) (Some ''abc'')) 5 =
     Some (Failure 400 ''INVALID_VALIDITY'', empty_store)"
    by (simp add: example_body_def)
  from post_shorturls_validity
         [OF c [of "Some (- 1)"] t, where s = empty_store and v = "- 1"]
  have 3: "post_shorturls example_env empty_store (example_body (Some (- 1)) (Some ''abc'')) 5 =
     Some (Failure 400 ''INVALID_VALIDITY'', empty_store)"
    by (simp add: example_body_def)
  from 1 2 3 4 show ?thesis by simp
qed

text \<open>
  A validity of one and a half minutes is within the bounds and is not an integer; the
  request succeeds and the link expires 90000 milliseconds later.
\<close>

theorem post_shorturls_fractional_validity:
  "post_shorturls example_env empty_store (example_body (Some (3 / 2)) (Some ''abc'')) 5 =
     Some (Created ''http://localhost:8080/abc'' 90005 ''abc'',
           \<lparr>urls = [example_link\<lparr>createdAt := 5, updatedAt := 5, expiresAt := 90005\<rparr>],
            clicks = []\<rparr>)"
  by code_simp

lemma cast_error_message_not_exists:
  "\<not> str_includes (''Failed to create short URL: '' @
        message (ValidationError ''Url'' [(''expiresAt'', cast_date_message ''expiresAt'')]))
      ''already exists''"
  by (simp add: cast_date_message_def)

text \<open>
  Claim C3, as amended. For a request with a shortcode of its own that reaches
  \<^verbatim>\<open>createShortUrl\<close>: when an active link holds the shortcode the answer is 409
  \<^verbatim>\<open>SHORTCODE_EXISTS\<close>; when only an inactive link holds it, the pre-check passes, the
  insert of the (valid) document violates the unique index, and the answer is 500
  \<^verbatim>\<open>INTERNAL_ERROR\<close>. The store is unchanged in both cases.
\<close>

theorem post_shorturls_shortcode_taken:
  assumes "early_checks_pass e b" and "validity_passes b"
    and "b_shortcode b = Some sc" and "sc \<noteq> []"
  shows "(findOne_active s sc \<noteq> None \<longrightarrow>
            post_shorturls e s b now = Some (Failure 409 ''SHORTCODE_EXISTS'', s)) \<and>
         (findOne_active s sc = None \<and> findOne s sc \<noteq> None \<and>
          urlPattern (or_default (b_url b) []) \<and> description_fits b \<longrightarrow>
            post_shorturls e s b now = Some (Failure 500 ''INTERNAL_ERROR'', s))"
proof (intro conjI impI)
  have v: "\<not> (validityMinutes b \<le> 0 \<or> validityMinutes b > 525600)"
    using assms(2) by (auto simp: validity_passes_def validityMinutes_def split: option.splits)
  have t: "truthy (b_shortcode b)" "or_default (b_shortcode b) [] = sc"
    using assms(3,4) by (simp_all add: truthy_def or_default_def)
  {
    assume "findOne_active s sc \<noteq> None"
    then have "createShortUrl e s (handler_data b) now =
                 Some (Inl (''Failed to create short URL: '' @ ''Custom shortcode already exists''), s)"
      using t by (simp add: createShortUrl_def handler_data_def Let_def)
    then show "post_shorturls e s b now = Some (Failure 409 ''SHORTCODE_EXISTS'', s)"
      using v by (simp add: post_shorturls_unfold [OF assms(1)])
  }
  {
    assume h: "findOne_active s sc = None \<and> findOne s sc \<noteq> None \<and>
          urlPattern (or_default (b_url b) []) \<and> description_fits b"
    have a: "alnum_regex sc" "3 \<le> length sc" "length sc \<le> 20" "truthy (b_url b)"
      using assms(1) t by (simp_all add: early_checks_pass_def)
    then have tr: "js_trim sc = sc" by (simp add: js_trim_alnum)
    define x where "x = expiry_date (double_date e) now (validityMinutes b)"
    define d where
      "d = \<lparr>d_shortcode = Some sc, d_originalUrl = or_default (b_url b) [],
            d_expiresAt = x,
            d_tags = map js_trim (case b_tags b of None \<Rightarrow> [] | Some ts \<Rightarrow> ts),
            d_description = b_description b\<rparr>"
    have u: "or_default (b_url b) [] \<noteq> []"
      using a(4) by (auto simp: truthy_def or_default_def split: option.splits)
    have c: "createShortUrl e s (handler_data b) now =
               (case save_url (random e) s d now of
                  None \<Rightarrow> None
                | Some (Inl err) \<Rightarrow> Some (Inl (''Failed to create short URL: '' @ message err), s)
                | Some (Inr (u, s')) \<Rightarrow>
                    Some (Inr \<lparr>r_shortcode = shortcode u, r_originalUrl = originalUrl u,
                               r_shortLink = baseUrl e @ ''/'' @ shortcode u,
                               r_expiresAt = expiresAt u, r_createdAt = createdAt u\<rparr>, s'))"
      using h t tr
      by (simp add: createShortUrl_def handler_data_def Let_def d_def x_def assms(3))
    have "\<exists>msg. createShortUrl e s (handler_data b) now = Some (Inl msg, s) \<and>
                \<not> str_includes msg ''already exists''"
    proof (cases x)
      case None
      with h a u have e: "url_errors d = [(''expiresAt'', cast_date_message ''expiresAt'')]"
        using assms(4)
        by (auto simp: url_errors_def d_def truthy_def or_default_def description_fits_def
            split: option.splits)
      then have "save_url (random e) s d now =
                   Some (Inl (ValidationError ''Url''
                     [(''expiresAt'', cast_date_message ''expiresAt'')]))"
        by (simp add: save_url_def)
      with c cast_error_message_not_exists show ?thesis by simp
    next
      case (Some expires)
      with h a u have e: "url_errors d = []"
        using assms(4)
        by (simp add: url_errors_Nil d_def truthy_def or_default_def description_fits_def)
      have p: "pre_save (random e) s d = Some d"
        using assms(4) by (simp add: pre_save_def d_def truthy_def)
      from h tr have "find_by_key s sc \<noteq> None"
        by (simp add: findOne_def find_by_key_def)
      then have i: "insert_url s d expires now = Inl (DuplicateKey sc)"
        by (simp add: insert_url_def d_def or_default_def assms(4) Let_def)
      have dx: "d_expiresAt d = Some expires"
        using Some by (simp add: d_def)
      have "save_url (random e) s d now = Some (Inl (DuplicateKey sc))"
        by (simp add: save_url_def e p i dx)
      moreover have "\<not> str_includes (''Failed to create short URL: '' @ message (DuplicateKey sc))
                       ''already exists''"
        using a(1) by (intro duplicate_key_message_not_exists) (simp add: alnum_regex_def)
      ultimately show ?thesis using c by simp
    qed
    then show "post_shorturls e s b now = Some (Failure 500 ''INTERNAL_ERROR'', s)"
      using v by (auto simp: post_shorturls_unfold [OF assms(1)])
  }
qed

theorem post_shorturls_shortcode_taken_witness:
  "post_shorturls example_env example_store (example_body None (Some ''abc'')) 5 =
     Some (Failure 409 ''SHORTCODE_EXISTS'', example_store)"
proof -
  have c: "early_checks_pass example_env (example_body None (Some ''abc''))"
    by (simp add: early_checks_pass_def example_env_def example_body_def truthy_def
        or_default_def alnum_regex_def chars62_def upper_letters_def lower_letters_def
        digit_chars_def)
  have v: "validity_passes (example_body None (Some ''abc''))"
    by (simp add: validity_passes_def example_body_def)
  have s: "b_shortcode (example_body None (Some ''abc'')) = Some ''abc''"
    by (simp add: example_body_def)
  have n: "''abc'' \<noteq> []" by simp
  have f: "findOne_active example_store ''abc'' \<noteq> None"
    by code_simp
  from post_shorturls_shortcode_taken [OF c v s n, of example_store 5] f
  show ?thesis by simp
qed

text \<open>
  The shortcode \<^verbatim>\<open>abc\<close> is held by a link that the sweep has deactivated: the insert
  fails on the unique index and the handler answers 500 \<^verbatim>\<open>INTERNAL_ERROR\<close>, not 409.
\<close>

theorem post_shorturls_duplicate_key:
  "findOne swept_store ''abc'' = Some (example_link\<lparr>isActive := False\<rparr>) \<and>
   createShortUrl example_env swept_store
       (handler_data (example_body None (Some ''abc''))) 5 =
     Some (Inl (''Failed to create short URL: '' @ message (DuplicateKey ''abc'')), swept_store) \<and>
   post_shorturls example_env swept_store (example_body None (Some ''abc'')) 5 =
     Some (Failure 500 ''INTERNAL_ERROR'', swept_store)"
  by code_simp

text \<open>
  What a 201 answer of \<^verbatim>\<open>POST /shorturls\<close> guarantees: the request had a shortcode, the
  shortcode of the answer is that one and matches \<^verbatim>\<open>^[A-Za-z0-9]{3,20}$\<close>, and at every
  time up to the expiry \<^verbatim>\<open>getUrlByShortcode\<close> returns for it a link whose target is the
  URL of the request.
\<close>

lemma post_shorturls_Created_lookup:
  assumes "post_shorturls e s b now = Some (Created link expiry sc, s')"
  shows "b_shortcode b = Some sc \<and> spec_shortcode sc \<and>
         (\<forall>t \<le> expiry. \<exists>u. getUrlByShortcode s' sc t = (Some u, s') \<and>
                             originalUrl u = or_default (b_url b) [])"
proof -
  note c = post_shorturls_Created [OF assms]
  from c(3) obtain r where r: "createShortUrl e s (handler_data b) now = Some (Inr r, s')"
    "r_shortcode r = sc" "r_expiresAt r = expiry"
    by blast
  note i = createShortUrl_Inr [OF r(1)]
  from i(5) obtain v where v: "b_shortcode b = Some v" "js_trim v \<noteq> []" "sc = js_trim v"
    by (auto simp: handler_data_def truthy_def or_default_def r(2) split: option.splits)
  then have "v \<noteq> []" by (auto simp: js_trim_def)
  with v c(1) have a: "alnum_regex v"
    by (simp add: early_checks_pass_def truthy_def or_default_def)
  then have tv: "js_trim v = v" by (rule js_trim_alnum)
  with v have sc: "sc = v" "js_trim sc = sc" by simp_all
  from a sc i(6) r(2) have spec: "spec_shortcode sc"
    by (auto simp: spec_shortcode_def alnum_regex_def chars62_def list_all_iff)
  have ou: "cd_originalUrl (handler_data b) = or_default (b_url b) []"
    by (simp add: handler_data_def)
  from i(4) [unfolded r(2) r(3) ou]
  obtain u where u: "s' = s\<lparr>urls := urls s @ [u]\<rparr>" "shortcode u = sc"
    "originalUrl u = or_default (b_url b) []" "expiresAt u = expiry" "isActive u"
    by blast
  from i(3) have "find (\<lambda>d. shortcode d = sc \<and> isActive d) (urls s) = None"
    by (auto simp: r(2) find_by_key_def find_None_iff)
  with u sc have f: "findOne_active s' sc = Some u"
    by (simp add: findOne_active_def find_append_None)
  have "\<forall>t \<le> expiry. \<exists>u. getUrlByShortcode s' sc t = (Some u, s') \<and>
                             originalUrl u = or_default (b_url b) []"
    using f u(3,4) by (auto simp: getUrlByShortcode_def isExpired_def)
  with spec v sc show ?thesis by simp
qed

text \<open>
  Claim C7 says that every valid creation request returns a shortcode, generated when
  the request has none. For the request with the URL \<^verbatim>\<open>https://example.com\<close> and no
  shortcode the code does not: the validator \<^verbatim>\<open>required\<close> of the path \<^verbatim>\<open>shortcode\<close>
  rejects the document before the hook that would generate one runs,
  \<^verbatim>\<open>createShortUrl\<close> throws, nothing is stored, and the handler answers 500
  \<^verbatim>\<open>INTERNAL_ERROR\<close>.
\<close>

theorem post_shorturls_without_shortcode:
  "createShortUrl example_env empty_store (handler_data (example_body None None)) 5 =
     Some (Inl (''Failed to create short URL: '' @
                message (ValidationError ''Url''
                  [(''shortcode'', required_message ''shortcode'')])), empty_store) \<and>
   post_shorturls example_env empty_store (example_body None None) 5 =
     Some (Failure 500 ''INTERNAL_ERROR'', empty_store)"
  by code_simp


end
